theory Spec2Isabelle
  imports Main "HOL-Library.Product_Lexorder" "HOL-Library.Multiset"
begin

section \<open>Data model\<close>

text \<open>
  The proxy manager keeps its durable data in two relational tables (\<open>proxies\<close>,
  \<open>accounts\<close>) and its ephemeral data in a key-value store with expiring keys.
  The Go enumerations \<open>models.ProxyType\<close> and \<open>models.ProxyStatus\<close> (the SQL enum
  types \<open>proxy_type\<close> and \<open>proxy_status\<close>) are datatypes, the struct
  \<open>models.Proxy\<close> is a record with the struct's fields. Points in time are whole
  seconds since the epoch (\<open>time.Now().Unix()\<close>, SQL \<open>NOW()\<close>); every operation
  that reads the clock takes the current time \<open>now\<close> as its first argument.

  Both stores answer every command: the branches in which the Go code only logs or
  forwards a transport error of the database or of the key-value store have no
  counterpart here. What depends on the data is kept: a query without rows, an empty
  pool, an increment that would overflow, an index out of range.
\<close>

datatype ProxyType = ProxyTypeHTTP | ProxyTypeSOCKS5

datatype ProxyStatus = ProxyStatusActive | ProxyStatusInactive | ProxyStatusError

record Proxy =
  ID :: int
  UUID :: string
  Name :: string
  Type :: ProxyType
  Host :: string
  Port :: int
  Username :: "string option"
  Password :: "string option"
  Status :: ProxyStatus
  HealthCheckURL :: "string option"
  LastHealthCheck :: "nat option"
  HealthCheckSuccess :: bool
  ResponseTimeMs :: int
  CreatedAt :: nat
  UpdatedAt :: nat

text \<open>
  Of an account row the proxy manager reads and writes only \<open>id\<close>, \<open>proxy_id\<close>
  (nullable) and \<open>updated_at\<close>.
\<close>

record Account =
  acc_ID :: int
  acc_ProxyID :: "int option"
  acc_UpdatedAt :: nat

text \<open>
  A key of the key-value store holds a value and an optional expiry time. A key whose
  expiry time has passed is gone for every command.
\<close>

type_synonym 'v entry = "'v \<times> nat option"

record HealthData =
  hd_success :: bool
  hd_response_time :: int
  hd_timestamp :: nat
  hd_error :: string

record AlertData =
  al_proxy_id :: int
  al_proxy_name :: string
  al_proxy_host :: string
  al_proxy_port :: int
  al_failure_count :: int
  al_timestamp :: nat
  al_type :: string

text \<open>
  The four key families of the key-value store have distinct prefixes, so each is a map
  of its own, indexed by what the key is formatted from:
  \<open>proxy_failures:<id>\<close>, \<open>proxy_round_robin[:<type>]\<close>, \<open>proxy_health:<id>\<close> and
  \<open>proxy_alert:<id>:<unix time>\<close>. The round-robin cursor is written without expiry.
\<close>

record stores =
  proxies :: "Proxy list"
  accounts :: "Account list"
  proxy_failures :: "int \<rightharpoonup> int entry"
  proxy_round_robin :: "ProxyType option \<rightharpoonup> int"
  proxy_health :: "int \<rightharpoonup> HealthData entry"
  proxy_alert :: "(int \<times> nat) \<rightharpoonup> AlertData entry"

datatype error =
    ProxyNotFound
  | NoAvailableProxies
  | IndexOutOfRange
  | FailedToGetSpecifiedProxy error
  | FailedToSelectProxy error
  | FailedToGetSelectedProxy error

section \<open>Key-value store commands\<close>

definition live :: "nat \<Rightarrow> 'v entry \<Rightarrow> bool" where
  "live now e = (case snd e of None \<Rightarrow> True | Some t \<Rightarrow> now \<le> t)"

definition redis_get :: "nat \<Rightarrow> ('k \<rightharpoonup> 'v entry) \<Rightarrow> 'k \<Rightarrow> 'v option" where
  "redis_get now m k =
     (case m k of
        None \<Rightarrow> None
      | Some e \<Rightarrow> if live now e then Some (fst e) else None)"

text \<open>
  \<open>INCR\<close> creates the key at 1 when it is absent (or expired), keeps the expiry of a
  live key, and fails on a value that would leave the signed 64-bit range.
\<close>

definition redis_incr ::
  "nat \<Rightarrow> ('k \<rightharpoonup> int entry) \<Rightarrow> 'k \<Rightarrow> (int \<times> ('k \<rightharpoonup> int entry)) option" where
  "redis_incr now m k =
     (case m k of
        None \<Rightarrow> Some (1, m(k \<mapsto> (1, None)))
      | Some e \<Rightarrow>
          if live now e then
            (if fst e = 2 ^ 63 - 1 then None
             else Some (fst e + 1, m(k \<mapsto> (fst e + 1, snd e))))
          else Some (1, m(k \<mapsto> (1, None))))"

definition redis_expire ::
  "nat \<Rightarrow> ('k \<rightharpoonup> 'v entry) \<Rightarrow> 'k \<Rightarrow> nat \<Rightarrow> ('k \<rightharpoonup> 'v entry)" where
  "redis_expire now m k ttl =
     (case m k of
        None \<Rightarrow> m
      | Some e \<Rightarrow> if live now e then m(k \<mapsto> (fst e, Some (now + ttl))) else m)"

definition redis_del :: "('k \<rightharpoonup> 'v entry) \<Rightarrow> 'k \<Rightarrow> ('k \<rightharpoonup> 'v entry)" where
  "redis_del m k = m(k := None)"

text \<open>
  \<open>HMSET\<close> with all the fields of the hash: the callers always write every field, so
  the stored hash is replaced. A live key keeps its expiry.
\<close>

definition redis_hmset ::
  "nat \<Rightarrow> ('k \<rightharpoonup> 'v entry) \<Rightarrow> 'k \<Rightarrow> 'v \<Rightarrow> ('k \<rightharpoonup> 'v entry)" where
  "redis_hmset now m k v =
     (case m k of
        None \<Rightarrow> m(k \<mapsto> (v, None))
      | Some e \<Rightarrow> if live now e then m(k \<mapsto> (v, snd e)) else m(k \<mapsto> (v, None)))"

section \<open>Proxy registry (ProxyService)\<close>

text \<open>
  A table is the list of its rows in storage order. \<open>ORDER BY\<close> is a stable sort of
  the rows that pass the \<open>WHERE\<close> clause: SQL leaves the order of rows with equal sort
  keys open, and every order it allows is the stable sort of some storage order, which
  the theorems below quantify over.
\<close>

definition GetProxy :: "stores \<Rightarrow> int \<Rightarrow> error + Proxy" where
  "GetProxy st pid =
     (case filter (\<lambda>p. ID p = pid) (proxies st) of
        [] \<Rightarrow> Inl ProxyNotFound
      | p # _ \<Rightarrow> Inr p)"

definition type_matches :: "ProxyType option \<Rightarrow> Proxy \<Rightarrow> bool" where
  "type_matches proxyType p =
     (case proxyType of None \<Rightarrow> True | Some t \<Rightarrow> Type p = t)"

text \<open>
  The \<open>WHERE\<close> clause shared by \<open>GetAvailableProxies\<close> and the three SQL strategies:
  \<open>status = 'active' AND health_check_success = true [AND type = $1]\<close>.
\<close>

definition available :: "ProxyType option \<Rightarrow> Proxy \<Rightarrow> bool" where
  "available proxyType p =
     (Status p = ProxyStatusActive \<and> HealthCheckSuccess p \<and> type_matches proxyType p)"

text \<open>
  \<open>GetAvailableProxies\<close> scans ten of the columns; the other fields of the returned
  structs keep Go's zero values.
\<close>

definition scan_available :: "Proxy \<Rightarrow> Proxy" where
  "scan_available p =
     p\<lparr>Username := None, Password := None, HealthCheckURL := None,
       LastHealthCheck := None, UpdatedAt := 0\<rparr>"

definition GetAvailableProxies :: "stores \<Rightarrow> ProxyType option \<Rightarrow> Proxy list" where
  "GetAvailableProxies st proxyType =
     map scan_available
       (sort_key ResponseTimeMs (filter (available proxyType) (proxies st)))"

definition updateProxyStatus :: "nat \<Rightarrow> int \<Rightarrow> ProxyStatus \<Rightarrow> Proxy list \<Rightarrow> Proxy list" where
  "updateProxyStatus now pid status rows =
     map (\<lambda>p. if ID p = pid then p\<lparr>Status := status, UpdatedAt := now\<rparr> else p) rows"

definition updateProxyHealth :: "nat \<Rightarrow> int \<Rightarrow> bool \<Rightarrow> int \<Rightarrow> Proxy list \<Rightarrow> Proxy list" where
  "updateProxyHealth now pid success responseTimeMs rows =
     map (\<lambda>p. if ID p = pid
               then p\<lparr>HealthCheckSuccess := success, ResponseTimeMs := responseTimeMs,
                      LastHealthCheck := Some now, UpdatedAt := now\<rparr>
               else p) rows"

section \<open>Assignment strategies\<close>

text \<open>\<open>COUNT(a.id)\<close> of \<open>proxies p LEFT JOIN accounts a ON p.id = a.proxy_id\<close>.\<close>

definition usage_count :: "stores \<Rightarrow> Proxy \<Rightarrow> int" where
  "usage_count st p = int (length (filter (\<lambda>a. acc_ProxyID a = Some (ID p)) (accounts st)))"

definition candidates :: "stores \<Rightarrow> ProxyType option \<Rightarrow> Proxy list" where
  "candidates st proxyType = filter (available proxyType) (proxies st)"

text \<open>\<open>LIMIT 1\<close> and \<open>Scan(&proxyID)\<close>: the first row's id, or \<open>sql.ErrNoRows\<close>.\<close>

definition first_id :: "Proxy list \<Rightarrow> error + int" where
  "first_id rows = (case rows of [] \<Rightarrow> Inl NoAvailableProxies | p # _ \<Rightarrow> Inr (ID p))"

definition selectLeastUsedProxy :: "stores \<Rightarrow> ProxyType option \<Rightarrow> error + int" where
  "selectLeastUsedProxy st proxyType =
     first_id (sort_key (\<lambda>p. (usage_count st p, ResponseTimeMs p)) (candidates st proxyType))"

definition selectFastestProxy :: "stores \<Rightarrow> ProxyType option \<Rightarrow> error + int" where
  "selectFastestProxy st proxyType =
     first_id (sort_key ResponseTimeMs (candidates st proxyType))"

definition score :: "stores \<Rightarrow> Proxy \<Rightarrow> int" where
  "score st p = usage_count st p * 100 + ResponseTimeMs p"

definition selectBestProxy :: "stores \<Rightarrow> ProxyType option \<Rightarrow> error + int" where
  "selectBestProxy st proxyType = first_id (sort_key (score st) (candidates st proxyType))"

text \<open>
  Go's \<open>int\<close> is a signed 64-bit integer: \<open>+\<close> wraps around and \<open>%\<close> truncates
  towards zero, so the remainder has the sign of the dividend. Indexing a slice with a
  negative index panics.
\<close>

definition int64_wrap :: "int \<Rightarrow> int" where
  "int64_wrap x = (x + 2 ^ 63) mod 2 ^ 64 - 2 ^ 63"

definition go_rem :: "int \<Rightarrow> int \<Rightarrow> int" where
  "go_rem a b = sgn a * (\<bar>a\<bar> mod \<bar>b\<bar>)"

definition selectRoundRobinProxy ::
  "stores \<Rightarrow> ProxyType option \<Rightarrow> (error + int) \<times> stores" where
  "selectRoundRobinProxy st proxyType =
     (let currentIndex = (case proxy_round_robin st proxyType of None \<Rightarrow> 0 | Some i \<Rightarrow> i);
          pool = GetAvailableProxies st proxyType;
          n = int (length pool)
      in if pool = [] then (Inl NoAvailableProxies, st)
         else if go_rem currentIndex n < 0 then (Inl IndexOutOfRange, st)
         else (Inr (ID (pool ! nat (go_rem currentIndex n))),
               st\<lparr>proxy_round_robin :=
                    (proxy_round_robin st)
                      (proxyType \<mapsto> go_rem (int64_wrap (currentIndex + 1)) n)\<rparr>))"

definition selectProxyByStrategy ::
  "stores \<Rightarrow> string \<Rightarrow> ProxyType option \<Rightarrow> (error + int) \<times> stores" where
  "selectProxyByStrategy st strategy proxyType =
     (if strategy = ''least_used'' then (selectLeastUsedProxy st proxyType, st)
      else if strategy = ''fastest'' then (selectFastestProxy st proxyType, st)
      else if strategy = ''round_robin'' then selectRoundRobinProxy st proxyType
      else (selectBestProxy st proxyType, st))"

section \<open>Assignment (AssignProxy, ReleaseProxy)\<close>

record ProxyAssignmentRequest =
  req_AccountID :: int
  req_ProxyID :: "int option"
  req_ProxyType :: "ProxyType option"
  req_Strategy :: string

record ProxyAssignmentResponse =
  resp_AccountID :: int
  resp_ProxyID :: int
  resp_ProxyName :: string
  resp_ProxyHost :: string
  resp_ProxyPort :: int
  resp_AssignedAt :: nat

text \<open>\<open>UPDATE accounts SET proxy_id = $1, updated_at = NOW() WHERE id = $2\<close>.\<close>

definition set_account_proxy :: "nat \<Rightarrow> int \<Rightarrow> int option \<Rightarrow> Account list \<Rightarrow> Account list" where
  "set_account_proxy now accountID proxyID rows =
     map (\<lambda>a. if acc_ID a = accountID
               then a\<lparr>acc_ProxyID := proxyID, acc_UpdatedAt := now\<rparr>
               else a) rows"

definition assign_row ::
  "nat \<Rightarrow> ProxyAssignmentRequest \<Rightarrow> int \<Rightarrow> Proxy \<Rightarrow> stores
     \<Rightarrow> (error + ProxyAssignmentResponse) \<times> stores" where
  "assign_row now req proxyID proxy st =
     (Inr \<lparr>resp_AccountID = req_AccountID req, resp_ProxyID = proxyID,
           resp_ProxyName = Name proxy, resp_ProxyHost = Host proxy,
           resp_ProxyPort = Port proxy, resp_AssignedAt = now\<rparr>,
      st\<lparr>accounts := set_account_proxy now (req_AccountID req) (Some proxyID) (accounts st)\<rparr>)"

definition AssignProxy ::
  "nat \<Rightarrow> ProxyAssignmentRequest \<Rightarrow> stores \<Rightarrow> (error + ProxyAssignmentResponse) \<times> stores" where
  "AssignProxy now req st =
     (case req_ProxyID req of
        Some pid \<Rightarrow>
          (case GetProxy st pid of
             Inl e \<Rightarrow> (Inl (FailedToGetSpecifiedProxy e), st)
           | Inr proxy \<Rightarrow> assign_row now req pid proxy st)
      | None \<Rightarrow>
          (let strategy = (if req_Strategy req = [] then ''auto'' else req_Strategy req)
           in case selectProxyByStrategy st strategy (req_ProxyType req) of
                (Inl e, st') \<Rightarrow> (Inl (FailedToSelectProxy e), st')
              | (Inr proxyID, st') \<Rightarrow>
                  (case GetProxy st' proxyID of
                     Inl e \<Rightarrow> (Inl (FailedToGetSelectedProxy e), st')
                   | Inr proxy \<Rightarrow> assign_row now req proxyID proxy st')))"

definition ReleaseProxy :: "nat \<Rightarrow> int \<Rightarrow> stores \<Rightarrow> stores" where
  "ReleaseProxy now accountID st =
     st\<lparr>accounts := set_account_proxy now accountID None (accounts st)\<rparr>"

section \<open>Health checking (HealthService)\<close>

text \<open>
  The outcome of one probe (\<open>testProxyConnection\<close> and the time it took) is an input
  of the model: \<open>probe_err = None\<close> is a successful probe.
\<close>

record ProbeOutcome =
  probe_err :: "string option"
  probe_duration_ms :: int

text \<open>
  \<open>SELECT ... FROM proxies WHERE status = 'active'
  ORDER BY last_health_check ASC NULLS FIRST\<close>.
\<close>

definition nulls_first :: "nat option \<Rightarrow> nat" where
  "nulls_first t = (case t of None \<Rightarrow> 0 | Some x \<Rightarrow> Suc x)"

definition getActiveProxies :: "stores \<Rightarrow> Proxy list" where
  "getActiveProxies st =
     sort_key (\<lambda>p. nulls_first (LastHealthCheck p))
       (filter (\<lambda>p. Status p = ProxyStatusActive) (proxies st))"

definition updateProxyHealthStatus ::
  "nat \<Rightarrow> int \<Rightarrow> bool \<Rightarrow> int \<Rightarrow> string \<Rightarrow> stores \<Rightarrow> stores" where
  "updateProxyHealthStatus now proxyID success responseTimeMs errorMsg st =
     st\<lparr>proxies := updateProxyHealth now proxyID success responseTimeMs (proxies st),
        proxy_health :=
          redis_expire now
            (redis_hmset now (proxy_health st) proxyID
               \<lparr>hd_success = success, hd_response_time = responseTimeMs,
                hd_timestamp = now, hd_error = errorMsg\<rparr>)
            proxyID (24 * 3600)\<rparr>"

definition notifyProxyFailure :: "nat \<Rightarrow> Proxy \<Rightarrow> int \<Rightarrow> stores \<Rightarrow> stores" where
  "notifyProxyFailure now proxy failures st =
     st\<lparr>proxy_alert :=
          redis_expire now
            (redis_hmset now (proxy_alert st) (ID proxy, now)
               \<lparr>al_proxy_id = ID proxy, al_proxy_name = Name proxy,
                al_proxy_host = Host proxy, al_proxy_port = Port proxy,
                al_failure_count = failures, al_timestamp = now,
                al_type = ''proxy_failure''\<rparr>)
            (ID proxy, now) (7 * 24 * 3600)\<rparr>"

text \<open>
  \<open>maxFailures\<close> is \<open>utils.GetEnvAsInt("MAX_PROXY_FAILURES", 3)\<close>, read on every call.
\<close>

definition default_maxProxyFailures :: int where
  "default_maxProxyFailures = 3"

definition handleProxyFailure :: "nat \<Rightarrow> int \<Rightarrow> Proxy \<Rightarrow> stores \<Rightarrow> stores" where
  "handleProxyFailure now maxFailures proxy st =
     (case redis_incr now (proxy_failures st) (ID proxy) of
        None \<Rightarrow> st
      | Some (failures, counters) \<Rightarrow>
          (let st1 = st\<lparr>proxy_failures := redis_expire now counters (ID proxy) 3600\<rparr>
           in if failures \<ge> maxFailures
              then notifyProxyFailure now proxy failures
                     (st1\<lparr>proxies :=
                            updateProxyStatus now (ID proxy) ProxyStatusError (proxies st1),
                          proxy_failures := redis_del (proxy_failures st1) (ID proxy)\<rparr>)
              else st1))"

definition handleProxySuccess :: "nat \<Rightarrow> Proxy \<Rightarrow> stores \<Rightarrow> stores" where
  "handleProxySuccess now proxy st =
     (let st1 = st\<lparr>proxy_failures := redis_del (proxy_failures st) (ID proxy)\<rparr>
      in if Status proxy = ProxyStatusError
         then st1\<lparr>proxies :=
                    updateProxyStatus now (ID proxy) ProxyStatusActive (proxies st1)\<rparr>
         else st1)"

definition checkProxyHealth ::
  "nat \<Rightarrow> int \<Rightarrow> ProbeOutcome \<Rightarrow> Proxy \<Rightarrow> stores \<Rightarrow> stores" where
  "checkProxyHealth now maxFailures outcome proxy st =
     (let success = (probe_err outcome = None);
          errorMsg = (case probe_err outcome of None \<Rightarrow> [] | Some e \<Rightarrow> e);
          st1 = updateProxyHealthStatus now (ID proxy) success
                  (probe_duration_ms outcome) errorMsg st
      in if \<not> success then handleProxyFailure now maxFailures proxy st1
         else handleProxySuccess now proxy st1)"

text \<open>
  One sweep. The Go code runs the checks of one sweep as concurrent tasks behind a
  semaphore; each task touches only the row and the keys of its own proxy, and the
  model runs them one after the other in the order of the snapshot.
\<close>

definition runHealthCheckCycle ::
  "nat \<Rightarrow> int \<Rightarrow> (Proxy \<Rightarrow> ProbeOutcome) \<Rightarrow> stores \<Rightarrow> stores" where
  "runHealthCheckCycle now maxFailures probe st =
     (let snapshot = getActiveProxies st
      in if snapshot = [] then st
         else foldl (\<lambda>s p. checkProxyHealth now maxFailures (probe p) p s) st snapshot)"

section \<open>Runs of assignment requests\<close>

text \<open>
  A run of assignment requests, one after the other, each at its own time: the answers
  in order, and the stores after the last one.
\<close>

fun assign_each ::
  "(nat \<times> ProxyAssignmentRequest) list \<Rightarrow> stores
     \<Rightarrow> (error + ProxyAssignmentResponse) list \<times> stores" where
  "assign_each [] st = ([], st)"
| "assign_each (x # xs) st =
     (case AssignProxy (fst x) (snd x) st of
        (res, st1) \<Rightarrow>
          (case assign_each xs st1 of (ress, st2) \<Rightarrow> (res # ress, st2)))"

definition assigned_proxy :: "error + ProxyAssignmentResponse \<Rightarrow> error + int" where
  "assigned_proxy res = (case res of Inl e \<Rightarrow> Inl e | Inr resp \<Rightarrow> Inr (resp_ProxyID resp))"

section \<open>Example data\<close>

text \<open>Concrete registries on which the theorems below are instantiated.\<close>

definition example_proxy :: "int \<Rightarrow> ProxyType \<Rightarrow> ProxyStatus \<Rightarrow> bool \<Rightarrow> int \<Rightarrow> Proxy" where
  "example_proxy i ty s h rt =
     \<lparr>ID = i, UUID = [], Name = ''proxy'', Type = ty, Host = ''proxy.example.com'',
      Port = 8080 + i, Username = None, Password = None, Status = s,
      HealthCheckURL = None, LastHealthCheck = None, HealthCheckSuccess = h,
      ResponseTimeMs = rt, CreatedAt = 0, UpdatedAt = 0\<rparr>"

definition example_account :: "int \<Rightarrow> int option \<Rightarrow> Account" where
  "example_account i pid = \<lparr>acc_ID = i, acc_ProxyID = pid, acc_UpdatedAt = 0\<rparr>"

definition example_stores :: "Proxy list \<Rightarrow> Account list \<Rightarrow> stores" where
  "example_stores ps as =
     \<lparr>proxies = ps, accounts = as, proxy_failures = Map.empty,
      proxy_round_robin = Map.empty, proxy_health = Map.empty, proxy_alert = Map.empty\<rparr>"

definition auto_example :: stores where
  "auto_example =
     example_stores
       [example_proxy 1 ProxyTypeHTTP ProxyStatusActive True 250,
        example_proxy 2 ProxyTypeHTTP ProxyStatusActive True 50]
       [example_account 10 (Some 2)]"

definition least_used_example :: stores where
  "least_used_example =
     example_stores
       [example_proxy 1 ProxyTypeHTTP ProxyStatusActive False 10,
        example_proxy 2 ProxyTypeHTTP ProxyStatusActive True 80,
        example_proxy 3 ProxyTypeHTTP ProxyStatusActive True 20]
       [example_account 10 (Some 2), example_account 11 (Some 3)]"

definition no_pool_example :: stores where
  "no_pool_example =
     example_stores
       [example_proxy 1 ProxyTypeHTTP ProxyStatusError True 10,
        example_proxy 2 ProxyTypeHTTP ProxyStatusActive False 20,
        example_proxy 3 ProxyTypeSOCKS5 ProxyStatusActive True 30]
       []"

definition quarantined_example :: stores where
  "quarantined_example =
     example_stores
       [example_proxy 1 ProxyTypeHTTP ProxyStatusError False 900,
        example_proxy 2 ProxyTypeHTTP ProxyStatusActive True 40]
       [example_account 10 None, example_account 11 (Some 2)]"

definition ok_probe :: "int \<Rightarrow> ProbeOutcome" where
  "ok_probe ms = \<lparr>probe_err = None, probe_duration_ms = ms\<rparr>"

definition failed_probe :: "int \<Rightarrow> ProbeOutcome" where
  "failed_probe ms = \<lparr>probe_err = Some ''proxy connection failed'', probe_duration_ms = ms\<rparr>"

definition tracker_example :: stores where
  "tracker_example =
     example_stores [example_proxy 1 ProxyTypeHTTP ProxyStatusActive True 40] []"

definition round_robin_example :: stores where
  "round_robin_example =
     example_stores
       [example_proxy 1 ProxyTypeHTTP ProxyStatusActive True 30,
        example_proxy 2 ProxyTypeHTTP ProxyStatusActive True 10,
        example_proxy 3 ProxyTypeHTTP ProxyStatusActive True 20,
        example_proxy 4 ProxyTypeHTTP ProxyStatusInactive True 5]
       [example_account 10 None, example_account 11 None, example_account 12 None]"

definition round_robin_request :: "int \<Rightarrow> ProxyAssignmentRequest" where
  "round_robin_request a =
     \<lparr>req_AccountID = a, req_ProxyID = None, req_ProxyType = None,
      req_Strategy = ''round_robin''\<rparr>"

text \<open>
  The registry of \<open>tracker_example\<close> after the status of proxy 1 was set to
  \<open>error\<close> by \<open>updateProxyStatus\<close> (as \<open>CreateProxy\<close> does when its connection
  test fails, or an operator's update), with two failures on the counter.
\<close>

definition stale_snapshot_example :: stores where
  "stale_snapshot_example =
     tracker_example\<lparr>proxies := updateProxyStatus 10 1 ProxyStatusError (proxies tracker_example),
                      proxy_failures := [1 \<mapsto> (2, Some 3000)]\<rparr>"

section \<open>Verified properties\<close>

lemmas example_defs = example_proxy_def example_account_def example_stores_def

subsection \<open>Selection picks a minimal candidate\<close>

lemma first_id_sort_key_min:
  fixes f :: "Proxy \<Rightarrow> ('k::linorder)"
  assumes "xs \<noteq> []"
  shows "\<exists>p\<in>set xs. first_id (sort_key f xs) = Inr (ID p) \<and> (\<forall>q\<in>set xs. f p \<le> f q)"
proof -
  from assms have "sort_key f xs \<noteq> []"
    by (metis length_0_conv length_sort)
  then obtain p ps where ps: "sort_key f xs = p # ps"
    by (cases "sort_key f xs") auto
  have "sorted (map f (p # ps))"
    using sorted_sort_key [of f xs] by (simp add: ps)
  then have le: "\<forall>q\<in>set (p # ps). f p \<le> f q"
    by auto
  have mem: "set (p # ps) = set xs"
    using set_sort [of f xs] by (simp add: ps)
  have "p \<in> set xs"
    using mem by auto
  moreover have "first_id (sort_key f xs) = Inr (ID p)"
    by (simp add: ps first_id_def)
  moreover have "\<forall>q\<in>set xs. f p \<le> f q"
    using le mem by blast
  ultimately show ?thesis by blast
qed

lemma first_id_Inr_mem:
  fixes f :: "Proxy \<Rightarrow> ('k::linorder)"
  assumes "first_id (sort_key f xs) = Inr pid"
  shows "\<exists>p\<in>set xs. ID p = pid \<and> (\<forall>q\<in>set xs. f p \<le> f q)"
proof (cases "xs = []")
  case True
  with assms show ?thesis by (simp add: first_id_def)
next
  case False
  from first_id_sort_key_min [OF False, of f] assms show ?thesis by auto
qed

lemma candidates_iff:
  "p \<in> set (candidates st t) \<longleftrightarrow>
     p \<in> set (proxies st) \<and> Status p = ProxyStatusActive \<and> HealthCheckSuccess p \<and> type_matches t p"
  by (auto simp: candidates_def available_def)

lemma GetAvailableProxies_Nil:
  "candidates st t = [] \<Longrightarrow> GetAvailableProxies st t = []"
  by (simp add: GetAvailableProxies_def candidates_def)

text \<open>
  C4. The auto strategy (\<open>selectBestProxy\<close>) returns a proxy that is active, passed
  its last health check and matches the type filter, and whose score
  \<open>usage_count * 100 + ResponseTimeMs\<close> is minimal among all such proxies. With
  candidate A (0 assignments, 250 ms, score 250) and candidate B (1 assignment, 50 ms,
  score 150) it returns B.
\<close>

theorem selectBestProxy_min_score:
  "(candidates st t \<noteq> [] \<longrightarrow> (\<exists>pid. selectBestProxy st t = Inr pid)) \<and>
   (selectBestProxy st t = Inr pid \<longrightarrow>
      (\<exists>p\<in>set (proxies st).
          ID p = pid \<and> Status p = ProxyStatusActive \<and> HealthCheckSuccess p \<and>
          type_matches t p \<and>
          (\<forall>q\<in>set (proxies st).
              Status q = ProxyStatusActive \<and> HealthCheckSuccess q \<and> type_matches t q \<longrightarrow>
              usage_count st p * 100 + ResponseTimeMs p
                \<le> usage_count st q * 100 + ResponseTimeMs q))) \<and>
   (set (candidates st t) = {A, B} \<and>
    usage_count st A = 0 \<and> ResponseTimeMs A = 250 \<and>
    usage_count st B = 1 \<and> ResponseTimeMs B = 50 \<longrightarrow>
      score st A = 250 \<and> score st B = 150 \<and> selectBestProxy st t = Inr (ID B))"
proof (intro conjI impI)
  assume "candidates st t \<noteq> []"
  from first_id_sort_key_min [OF this, of "score st"]
  show "\<exists>pid. selectBestProxy st t = Inr pid"
    unfolding selectBestProxy_def by blast
next
  assume "selectBestProxy st t = Inr pid"
  then obtain p where p: "p \<in> set (candidates st t)" "ID p = pid"
    "\<forall>q\<in>set (candidates st t). score st p \<le> score st q"
    unfolding selectBestProxy_def by (blast dest: first_id_Inr_mem)
  have "\<forall>q\<in>set (proxies st).
          Status q = ProxyStatusActive \<and> HealthCheckSuccess q \<and> type_matches t q \<longrightarrow>
          usage_count st p * 100 + ResponseTimeMs p
            \<le> usage_count st q * 100 + ResponseTimeMs q"
  proof (intro ballI impI)
    fix q assume "q \<in> set (proxies st)"
      "Status q = ProxyStatusActive \<and> HealthCheckSuccess q \<and> type_matches t q"
    then have "q \<in> set (candidates st t)" by (simp add: candidates_iff)
    with p(3) have "score st p \<le> score st q" by blast
    then show "usage_count st p * 100 + ResponseTimeMs p
                 \<le> usage_count st q * 100 + ResponseTimeMs q"
      by (simp add: score_def)
  qed
  moreover from p(1) have "p \<in> set (proxies st)" "Status p = ProxyStatusActive"
    "HealthCheckSuccess p" "type_matches t p"
    by (simp_all add: candidates_iff)
  ultimately show "\<exists>p\<in>set (proxies st).
          ID p = pid \<and> Status p = ProxyStatusActive \<and> HealthCheckSuccess p \<and>
          type_matches t p \<and>
          (\<forall>q\<in>set (proxies st).
              Status q = ProxyStatusActive \<and> HealthCheckSuccess q \<and> type_matches t q \<longrightarrow>
              usage_count st p * 100 + ResponseTimeMs p
                \<le> usage_count st q * 100 + ResponseTimeMs q)"
    using p(2) by blast
next
  assume h: "set (candidates st t) = {A, B} \<and>
    usage_count st A = 0 \<and> ResponseTimeMs A = 250 \<and>
    usage_count st B = 1 \<and> ResponseTimeMs B = 50"
  then show "score st A = 250" "score st B = 150"
    by (simp_all add: score_def)
  from h have ne: "candidates st t \<noteq> []" by auto
  from first_id_sort_key_min [OF ne, of "score st"]
  obtain p where p: "p \<in> set (candidates st t)" "selectBestProxy st t = Inr (ID p)"
    "\<forall>q\<in>set (candidates st t). score st p \<le> score st q"
    unfolding selectBestProxy_def by blast
  have "score st p \<le> score st B" using p(3) h by simp
  moreover have "score st A = 250" "score st B = 150" using h by (simp_all add: score_def)
  ultimately have "p \<noteq> A" by auto
  with p(1) h have "p = B" by auto
  with p(2) show "selectBestProxy st t = Inr (ID B)" by simp
qed

theorem selectBestProxy_min_score_witness:
  "selectBestProxy auto_example None = Inr 2 \<and>
   score auto_example (example_proxy 1 ProxyTypeHTTP ProxyStatusActive True 250) = 250 \<and>
   score auto_example (example_proxy 2 ProxyTypeHTTP ProxyStatusActive True 50) = 150"
proof -
  let ?A = "example_proxy 1 ProxyTypeHTTP ProxyStatusActive True 250"
  let ?B = "example_proxy 2 ProxyTypeHTTP ProxyStatusActive True 50"
  have h: "set (candidates auto_example None) = {?A, ?B} \<and>
    usage_count auto_example ?A = 0 \<and> ResponseTimeMs ?A = 250 \<and>
    usage_count auto_example ?B = 1 \<and> ResponseTimeMs ?B = 50"
    by (simp add: auto_example_def example_defs candidates_def available_def
          type_matches_def usage_count_def)
  have b: "ID ?B = 2" by (simp add: example_defs)
  from selectBestProxy_min_score [of auto_example None 2 ?A ?B]
  have "set (candidates auto_example None) = {?A, ?B} \<and>
    usage_count auto_example ?A = 0 \<and> ResponseTimeMs ?A = 250 \<and>
    usage_count auto_example ?B = 1 \<and> ResponseTimeMs ?B = 50 \<longrightarrow>
      score auto_example ?A = 250 \<and> score auto_example ?B = 150 \<and>
      selectBestProxy auto_example None = Inr (ID ?B)"
    by (rule conjunct2 [OF conjunct2])
  with h have "score auto_example ?A = 250 \<and> score auto_example ?B = 150 \<and>
      selectBestProxy auto_example None = Inr (ID ?B)"
    by (rule rev_mp)
  then show ?thesis by (simp only: b)
qed

text \<open>
  C6. The least-used strategy returns, whenever a candidate exists, a proxy that is
  active, passed its last health check and matches the type filter, and that comes first
  in the order by number of assigned accounts, then by response time. A proxy whose
  health flag is false is never returned, however few accounts it has.
\<close>

theorem selectLeastUsedProxy_healthy_only:
  "(candidates st t \<noteq> [] \<longrightarrow> (\<exists>pid. selectLeastUsedProxy st t = Inr pid)) \<and>
   (selectLeastUsedProxy st t = Inr pid \<longrightarrow>
      (\<exists>p\<in>set (proxies st).
          ID p = pid \<and> Status p = ProxyStatusActive \<and> HealthCheckSuccess p \<and>
          type_matches t p \<and>
          (\<forall>q\<in>set (proxies st).
              Status q = ProxyStatusActive \<and> HealthCheckSuccess q \<and> type_matches t q \<longrightarrow>
              usage_count st p < usage_count st q \<or>
              (usage_count st p = usage_count st q \<and> ResponseTimeMs p \<le> ResponseTimeMs q)))) \<and>
   (distinct (map ID (proxies st)) \<and> r \<in> set (proxies st) \<and> \<not> HealthCheckSuccess r \<longrightarrow>
      selectLeastUsedProxy st t \<noteq> Inr (ID r))"
proof (intro conjI impI)
  assume "candidates st t \<noteq> []"
  from first_id_sort_key_min [OF this, of "\<lambda>p. (usage_count st p, ResponseTimeMs p)"]
  show "\<exists>pid. selectLeastUsedProxy st t = Inr pid"
    unfolding selectLeastUsedProxy_def by blast
next
  assume "selectLeastUsedProxy st t = Inr pid"
  then obtain p where p: "p \<in> set (candidates st t)" "ID p = pid"
    "\<forall>q\<in>set (candidates st t).
        (usage_count st p, ResponseTimeMs p) \<le> (usage_count st q, ResponseTimeMs q)"
    unfolding selectLeastUsedProxy_def by (blast dest: first_id_Inr_mem)
  have "\<forall>q\<in>set (proxies st).
          Status q = ProxyStatusActive \<and> HealthCheckSuccess q \<and> type_matches t q \<longrightarrow>
          usage_count st p < usage_count st q \<or>
          (usage_count st p = usage_count st q \<and> ResponseTimeMs p \<le> ResponseTimeMs q)"
  proof (intro ballI impI)
    fix q assume "q \<in> set (proxies st)"
      "Status q = ProxyStatusActive \<and> HealthCheckSuccess q \<and> type_matches t q"
    then have "q \<in> set (candidates st t)" by (simp add: candidates_iff)
    with p(3) have "(usage_count st p, ResponseTimeMs p) \<le> (usage_count st q, ResponseTimeMs q)"
      by blast
    then show "usage_count st p < usage_count st q \<or>
          (usage_count st p = usage_count st q \<and> ResponseTimeMs p \<le> ResponseTimeMs q)"
      by (auto simp: less_eq_prod_def)
  qed
  with p(1,2) show "\<exists>p\<in>set (proxies st).
          ID p = pid \<and> Status p = ProxyStatusActive \<and> HealthCheckSuccess p \<and>
          type_matches t p \<and>
          (\<forall>q\<in>set (proxies st).
              Status q = ProxyStatusActive \<and> HealthCheckSuccess q \<and> type_matches t q \<longrightarrow>
              usage_count st p < usage_count st q \<or>
              (usage_count st p = usage_count st q \<and> ResponseTimeMs p \<le> ResponseTimeMs q))"
    unfolding candidates_iff by blast
next
  assume h: "distinct (map ID (proxies st)) \<and> r \<in> set (proxies st) \<and> \<not> HealthCheckSuccess r"
  show "selectLeastUsedProxy st t \<noteq> Inr (ID r)"
  proof
    assume "selectLeastUsedProxy st t = Inr (ID r)"
    then obtain p where p: "p \<in> set (candidates st t)" "ID p = ID r"
      unfolding selectLeastUsedProxy_def by (blast dest: first_id_Inr_mem)
    then have "p \<in> set (proxies st)" "HealthCheckSuccess p"
      by (simp_all add: candidates_iff)
    moreover from h have "inj_on ID (set (proxies st))"
      by (simp add: distinct_map)
    ultimately have "p = r" using h p(2) by (auto dest: inj_onD)
    with \<open>HealthCheckSuccess p\<close> h show False by simp
  qed
qed

theorem selectLeastUsedProxy_healthy_only_witness:
  "selectLeastUsedProxy least_used_example None = Inr 3 \<and>
   usage_count least_used_example (example_proxy 1 ProxyTypeHTTP ProxyStatusActive False 10) = 0 \<and>
   selectLeastUsedProxy least_used_example None \<noteq> Inr 1"
proof -
  let ?r = "example_proxy 1 ProxyTypeHTTP ProxyStatusActive False 10"
  have sel: "selectLeastUsedProxy least_used_example None = Inr 3"
    by (simp add: least_used_example_def example_defs selectLeastUsedProxy_def
          candidates_def available_def type_matches_def usage_count_def first_id_def
          less_eq_prod_def less_prod_def)
  have h: "distinct (map ID (proxies least_used_example)) \<and>
           ?r \<in> set (proxies least_used_example) \<and> \<not> HealthCheckSuccess ?r"
    by (simp add: least_used_example_def example_defs)
  have u: "usage_count least_used_example ?r = 0"
    by (simp add: least_used_example_def example_defs usage_count_def)
  have "ID ?r = 1" by (simp add: example_defs)
  with selectLeastUsedProxy_healthy_only [of least_used_example None 3 ?r] h sel u
  show ?thesis by simp
qed

text \<open>
  C7. When no proxy is active, healthy and of the requested type, each of the four
  strategies reports \<open>NoAvailableProxies\<close>, whatever the strategy string, and
  \<open>AssignProxy\<close> without an explicit proxy fails with that error and changes nothing.
\<close>

theorem empty_pool_NoAvailableProxies:
  assumes "\<forall>p\<in>set (proxies st). \<not> (Status p = ProxyStatusActive \<and> HealthCheckSuccess p \<and> type_matches t p)"
  shows "selectLeastUsedProxy st t = Inl NoAvailableProxies \<and>
         selectFastestProxy st t = Inl NoAvailableProxies \<and>
         selectRoundRobinProxy st t = (Inl NoAvailableProxies, st) \<and>
         selectBestProxy st t = Inl NoAvailableProxies \<and>
         selectProxyByStrategy st strategy t = (Inl NoAvailableProxies, st) \<and>
         AssignProxy now \<lparr>req_AccountID = a, req_ProxyID = None, req_ProxyType = t,
                          req_Strategy = strategy\<rparr> st
           = (Inl (FailedToSelectProxy NoAvailableProxies), st)"
proof -
  from assms have c: "candidates st t = []"
    by (auto simp: candidates_def available_def filter_empty_conv)
  have 1: "selectLeastUsedProxy st t = Inl NoAvailableProxies"
    by (simp add: selectLeastUsedProxy_def c first_id_def)
  have 2: "selectFastestProxy st t = Inl NoAvailableProxies"
    by (simp add: selectFastestProxy_def c first_id_def)
  have 3: "selectRoundRobinProxy st t = (Inl NoAvailableProxies, st)"
    by (simp add: selectRoundRobinProxy_def GetAvailableProxies_Nil [OF c] Let_def)
  have 4: "selectBestProxy st t = Inl NoAvailableProxies"
    by (simp add: selectBestProxy_def c first_id_def)
  have 5: "selectProxyByStrategy st s t = (Inl NoAvailableProxies, st)" for s
    by (simp add: selectProxyByStrategy_def 1 2 3 4)
  have 6: "AssignProxy now \<lparr>req_AccountID = a, req_ProxyID = None, req_ProxyType = t,
                          req_Strategy = strategy\<rparr> st
           = (Inl (FailedToSelectProxy NoAvailableProxies), st)"
    by (simp add: AssignProxy_def 5 Let_def)
  from 1 2 3 4 5 6 show ?thesis by blast
qed

theorem empty_pool_NoAvailableProxies_witness:
  "selectProxyByStrategy no_pool_example ''fastest'' (Some ProxyTypeHTTP)
     = (Inl NoAvailableProxies, no_pool_example) \<and>
   selectProxyByStrategy no_pool_example ''round_robin'' (Some ProxyTypeHTTP)
     = (Inl NoAvailableProxies, no_pool_example)"
proof -
  have h: "\<forall>p\<in>set (proxies no_pool_example).
     \<not> (Status p = ProxyStatusActive \<and> HealthCheckSuccess p \<and> type_matches (Some ProxyTypeHTTP) p)"
    by (simp add: no_pool_example_def example_defs type_matches_def)
  from empty_pool_NoAvailableProxies [OF h, of "''fastest''"]
       empty_pool_NoAvailableProxies [OF h, of "''round_robin''"]
  show ?thesis by simp
qed

subsection \<open>Assignment\<close>

lemma GetProxy_found:
  assumes "p \<in> set (proxies st)"
  shows "\<exists>p'. GetProxy st (ID p) = Inr p' \<and> p' \<in> set (proxies st) \<and> ID p' = ID p"
proof -
  from assms have "p \<in> set (filter (\<lambda>q. ID q = ID p) (proxies st))" by simp
  then obtain p' ps where ps: "filter (\<lambda>q. ID q = ID p) (proxies st) = p' # ps"
    by (cases "filter (\<lambda>q. ID q = ID p) (proxies st)") auto
  then have "p' \<in> set (filter (\<lambda>q. ID q = ID p) (proxies st))" by simp
  then have "p' \<in> set (proxies st)" "ID p' = ID p" by simp_all
  moreover have "GetProxy st (ID p) = Inr p'" by (simp add: GetProxy_def ps)
  ultimately show ?thesis by blast
qed

lemma GetProxy_missing:
  assumes "pid \<notin> ID ` set (proxies st)"
  shows "GetProxy st pid = Inl ProxyNotFound"
proof -
  from assms have "filter (\<lambda>q. ID q = pid) (proxies st) = []"
    by (auto simp: filter_empty_conv)
  then show ?thesis by (simp add: GetProxy_def)
qed

lemma set_account_proxy_pointer:
  "map acc_ProxyID (set_account_proxy now a v rows) =
     map (\<lambda>r. if acc_ID r = a then v else acc_ProxyID r) rows"
  by (simp add: set_account_proxy_def)

lemma set_account_proxy_ids:
  "map acc_ID (set_account_proxy now a v rows) = map acc_ID rows"
  by (simp add: set_account_proxy_def)

text \<open>
  C8. With an explicit proxy id \<open>AssignProxy\<close> selects nothing: when a row with
  that id exists, whatever its status and health flag, the call succeeds, names that
  proxy in its response and sets the proxy pointer of the account to it, leaving every
  other account and the rest of the stores as they were; when no row has the id, the
  call fails with "proxy not found" and changes nothing.
\<close>

theorem AssignProxy_explicit_id:
  assumes "req_ProxyID req = Some pid"
  shows "(pid \<in> ID ` set (proxies st) \<longrightarrow>
           (\<exists>resp st'. AssignProxy now req st = (Inr resp, st') \<and>
              resp_ProxyID resp = pid \<and> resp_AccountID resp = req_AccountID req \<and>
              st' = st\<lparr>accounts :=
                        set_account_proxy now (req_AccountID req) (Some pid) (accounts st)\<rparr> \<and>
              map acc_ID (accounts st') = map acc_ID (accounts st) \<and>
              map acc_ProxyID (accounts st') =
                map (\<lambda>r. if acc_ID r = req_AccountID req then Some pid else acc_ProxyID r)
                  (accounts st))) \<and>
         (pid \<notin> ID ` set (proxies st) \<longrightarrow>
            AssignProxy now req st = (Inl (FailedToGetSpecifiedProxy ProxyNotFound), st))"
proof (intro conjI impI)
  assume "pid \<in> ID ` set (proxies st)"
  then obtain p where "p \<in> set (proxies st)" "ID p = pid" by auto
  with GetProxy_found [of p st] obtain p' where "GetProxy st pid = Inr p'" by auto
  then have "AssignProxy now req st = assign_row now req pid p' st"
    using assms by (simp add: AssignProxy_def)
  then show "\<exists>resp st'. AssignProxy now req st = (Inr resp, st') \<and>
              resp_ProxyID resp = pid \<and> resp_AccountID resp = req_AccountID req \<and>
              st' = st\<lparr>accounts :=
                        set_account_proxy now (req_AccountID req) (Some pid) (accounts st)\<rparr> \<and>
              map acc_ID (accounts st') = map acc_ID (accounts st) \<and>
              map acc_ProxyID (accounts st') =
                map (\<lambda>r. if acc_ID r = req_AccountID req then Some pid else acc_ProxyID r)
                  (accounts st)"
    by (simp add: assign_row_def set_account_proxy_pointer set_account_proxy_ids)
next
  assume "pid \<notin> ID ` set (proxies st)"
  then have "GetProxy st pid = Inl ProxyNotFound" by (rule GetProxy_missing)
  then show "AssignProxy now req st = (Inl (FailedToGetSpecifiedProxy ProxyNotFound), st)"
    using assms by (simp add: AssignProxy_def)
qed

theorem AssignProxy_explicit_id_witness:
  "(\<exists>resp st'.
      AssignProxy 5 \<lparr>req_AccountID = 10, req_ProxyID = Some 1, req_ProxyType = None,
                     req_Strategy = ''fastest''\<rparr> quarantined_example = (Inr resp, st') \<and>
      resp_ProxyID resp = 1 \<and> map acc_ProxyID (accounts st') = [Some 1, Some 2]) \<and>
   AssignProxy 5 \<lparr>req_AccountID = 10, req_ProxyID = Some 7, req_ProxyType = None,
                  req_Strategy = ''fastest''\<rparr> quarantined_example
     = (Inl (FailedToGetSpecifiedProxy ProxyNotFound), quarantined_example)"
proof -
  let ?r1 = "\<lparr>req_AccountID = 10, req_ProxyID = Some 1, req_ProxyType = None,
               req_Strategy = ''fastest''\<rparr>"
  let ?r7 = "\<lparr>req_AccountID = 10, req_ProxyID = Some 7, req_ProxyType = None,
               req_Strategy = ''fastest''\<rparr>"
  have ids: "ID ` set (proxies quarantined_example) = {1, 2}"
    by (simp add: quarantined_example_def example_defs)
  have accs: "map (\<lambda>r. if acc_ID r = req_AccountID ?r1 then Some 1 else acc_ProxyID r)
                  (accounts quarantined_example) = [Some 1, Some 2]"
    by (simp add: quarantined_example_def example_defs)
  have 1: "(1::int) \<in> ID ` set (proxies quarantined_example)"
    and 7: "(7::int) \<notin> ID ` set (proxies quarantined_example)"
    by (simp_all add: ids)
  from AssignProxy_explicit_id [of ?r1 1 quarantined_example 5] 1 accs
  have a: "\<exists>resp st'. AssignProxy 5 ?r1 quarantined_example = (Inr resp, st') \<and>
      resp_ProxyID resp = 1 \<and> map acc_ProxyID (accounts st') = [Some 1, Some 2]"
    by auto
  from AssignProxy_explicit_id [of ?r7 7 quarantined_example 5] 7
  have b: "AssignProxy 5 ?r7 quarantined_example
     = (Inl (FailedToGetSpecifiedProxy ProxyNotFound), quarantined_example)"
    by simp
  from a b show ?thesis by blast
qed

text \<open>
  C10. Every strategy string other than "least_used", "fastest" and "round_robin"
  ("manual", the empty string and unknown values included) runs the combined-score
  selection: \<open>AssignProxy\<close> answers as it does for "auto", and it succeeds whenever
  a candidate exists, so no strategy value is rejected.
\<close>

theorem unlisted_strategy_selects_auto:
  assumes "strategy \<noteq> ''least_used''" "strategy \<noteq> ''fastest''" "strategy \<noteq> ''round_robin''"
  shows "selectProxyByStrategy st strategy t = (selectBestProxy st t, st) \<and>
         AssignProxy now \<lparr>req_AccountID = a, req_ProxyID = None, req_ProxyType = t,
                          req_Strategy = strategy\<rparr> st
           = AssignProxy now \<lparr>req_AccountID = a, req_ProxyID = None, req_ProxyType = t,
                              req_Strategy = ''auto''\<rparr> st \<and>
         (candidates st t \<noteq> [] \<longrightarrow>
            (\<exists>resp st'. AssignProxy now \<lparr>req_AccountID = a, req_ProxyID = None,
                            req_ProxyType = t, req_Strategy = strategy\<rparr> st = (Inr resp, st')))"
proof -
  have sel: "selectProxyByStrategy st strategy t = (selectBestProxy st t, st)"
    using assms by (simp add: selectProxyByStrategy_def)
  have auto: "selectProxyByStrategy st ''auto'' t = (selectBestProxy st t, st)"
    by (simp add: selectProxyByStrategy_def)
  have eq: "AssignProxy now \<lparr>req_AccountID = a, req_ProxyID = None, req_ProxyType = t,
                          req_Strategy = strategy\<rparr> st
           = AssignProxy now \<lparr>req_AccountID = a, req_ProxyID = None, req_ProxyType = t,
                              req_Strategy = ''auto''\<rparr> st"
    by (simp add: AssignProxy_def Let_def sel auto assign_row_def split: sum.splits)
  have ok: "\<exists>resp st'. AssignProxy now \<lparr>req_AccountID = a, req_ProxyID = None,
                            req_ProxyType = t, req_Strategy = strategy\<rparr> st = (Inr resp, st')"
    if ne: "candidates st t \<noteq> []"
  proof -
    from first_id_sort_key_min [OF ne, of "score st"]
    obtain p where p: "p \<in> set (candidates st t)" "selectBestProxy st t = Inr (ID p)"
      unfolding selectBestProxy_def by blast
    then have "p \<in> set (proxies st)" by (simp add: candidates_iff)
    from GetProxy_found [OF this] obtain p' where "GetProxy st (ID p) = Inr p'" by blast
    then show ?thesis
      by (simp add: AssignProxy_def Let_def sel auto p(2) assign_row_def)
  qed
  from sel eq ok show ?thesis by blast
qed

theorem unlisted_strategy_selects_auto_witness:
  "selectProxyByStrategy auto_example ''manual'' None = (Inr 2, auto_example) \<and>
   selectProxyByStrategy auto_example [] None = (Inr 2, auto_example) \<and>
   selectProxyByStrategy auto_example ''random'' None = (Inr 2, auto_example)"
proof -
  have b: "selectBestProxy auto_example None = Inr 2"
    by (simp add: auto_example_def example_defs selectBestProxy_def candidates_def
          available_def type_matches_def score_def usage_count_def first_id_def)
  from unlisted_strategy_selects_auto [of "''manual''" auto_example None]
       unlisted_strategy_selects_auto [of "[]" auto_example None]
       unlisted_strategy_selects_auto [of "''random''" auto_example None] b
  show ?thesis by simp
qed

subsection \<open>Health updates and the failure tracker\<close>

lemma updateProxyHealthStatus_frame:
  "proxy_failures (updateProxyHealthStatus now pid s ms e st) = proxy_failures st"
  "proxy_alert (updateProxyHealthStatus now pid s ms e st) = proxy_alert st"
  "proxy_round_robin (updateProxyHealthStatus now pid s ms e st) = proxy_round_robin st"
  "accounts (updateProxyHealthStatus now pid s ms e st) = accounts st"
  "map Status (proxies (updateProxyHealthStatus now pid s ms e st)) = map Status (proxies st)"
  "map ID (proxies (updateProxyHealthStatus now pid s ms e st)) = map ID (proxies st)"
  by (simp_all add: updateProxyHealthStatus_def updateProxyHealth_def)

lemma handleProxySuccess_effect:
  "proxy_failures (handleProxySuccess now p st) = (proxy_failures st)(ID p := None)"
  "proxy_alert (handleProxySuccess now p st) = proxy_alert st"
  "map Status (proxies (handleProxySuccess now p st)) =
     map (\<lambda>q. if ID q = ID p \<and> Status p = ProxyStatusError then ProxyStatusActive
               else Status q) (proxies st)"
  by (simp_all add: handleProxySuccess_def Let_def redis_del_def updateProxyStatus_def)

text \<open>
  C2. A successful probe of a proxy deletes the proxy's failure counter, whatever it
  held. Whether the status is restored is decided by the status field of the proxy
  record handed to the tracker, not by the row of the registry: when that record does
  not say \<open>error\<close>, no row changes its status, so a row that is in \<open>error\<close> stays in
  \<open>error\<close>. Every record of a sweep's snapshot says \<open>active\<close>, hence a sweep whose
  probes all succeed changes no status at all.
\<close>

theorem successful_probe_tests_snapshot_status:
  "(probe_err outcome = None \<longrightarrow>
      proxy_failures (checkProxyHealth now maxFailures outcome p st) (ID p) = None \<and>
      (Status p \<noteq> ProxyStatusError \<longrightarrow>
         map Status (proxies (checkProxyHealth now maxFailures outcome p st))
           = map Status (proxies st))) \<and>
   ((\<forall>q. probe_err (probe q) = None) \<longrightarrow>
      map Status (proxies (runHealthCheckCycle now maxFailures probe st))
        = map Status (proxies st))"
proof -
  have ok: "proxy_failures (checkProxyHealth t m out r s) (ID r) = None \<and>
            (Status r \<noteq> ProxyStatusError \<longrightarrow>
               map Status (proxies (checkProxyHealth t m out r s)) = map Status (proxies s))"
    if "probe_err out = None" for t m out r s
  proof -
    let ?s1 = "updateProxyHealthStatus t (ID r) True (probe_duration_ms out) [] s"
    have c: "checkProxyHealth t m out r s = handleProxySuccess t r ?s1"
      using that by (simp add: checkProxyHealth_def Let_def)
    have 1: "proxy_failures (checkProxyHealth t m out r s) (ID r) = None"
      by (simp add: c handleProxySuccess_effect)
    have 2: "map Status (proxies (checkProxyHealth t m out r s)) = map Status (proxies s)"
      if "Status r \<noteq> ProxyStatusError"
      using that
      by (simp add: c handleProxySuccess_effect(3) updateProxyHealthStatus_frame(5))
    from 1 2 show ?thesis by blast
  qed
  have sweep: "map Status (proxies (foldl (\<lambda>s r. checkProxyHealth now maxFailures (probe r) r s)
                                      s rs)) = map Status (proxies s)"
    if "\<forall>q. probe_err (probe q) = None" "\<forall>r\<in>set rs. Status r = ProxyStatusActive" for rs s
    using that(2)
  proof (induction rs arbitrary: s)
    case Nil
    then show ?case by simp
  next
    case (Cons r rs)
    have "probe_err (probe r) = None" using that(1) by simp
    from ok [OF this, of now maxFailures r s] Cons.prems
    have "map Status (proxies (checkProxyHealth now maxFailures (probe r) r s))
            = map Status (proxies s)"
      by simp
    with Cons show ?case by simp
  qed
  have snap: "\<forall>r\<in>set (getActiveProxies st). Status r = ProxyStatusActive"
    by (simp add: getActiveProxies_def)
  have cycle: "map Status (proxies (runHealthCheckCycle now maxFailures probe st))
                 = map Status (proxies st)"
    if "\<forall>q. probe_err (probe q) = None"
    using sweep [OF that snap] by (simp add: runHealthCheckCycle_def Let_def)
  from ok [of outcome now maxFailures p st] cycle show ?thesis by blast
qed

theorem successful_probe_tests_snapshot_status_witness:
  "example_proxy 1 ProxyTypeHTTP ProxyStatusActive True 40
     \<in> set (getActiveProxies tracker_example) \<and>
   map Status (proxies stale_snapshot_example) = [ProxyStatusError] \<and>
   map Status (proxies (checkProxyHealth 50 default_maxProxyFailures (ok_probe 120)
       (example_proxy 1 ProxyTypeHTTP ProxyStatusActive True 40) stale_snapshot_example))
     = [ProxyStatusError] \<and>
   proxy_failures (checkProxyHealth 50 default_maxProxyFailures (ok_probe 120)
       (example_proxy 1 ProxyTypeHTTP ProxyStatusActive True 40) stale_snapshot_example) 1
     = None"
proof -
  let ?p = "example_proxy 1 ProxyTypeHTTP ProxyStatusActive True 40"
  have h: "probe_err (ok_probe 120) = None" by (simp add: ok_probe_def)
  have p: "ID ?p = 1" "Status ?p \<noteq> ProxyStatusError" by (simp_all add: example_defs)
  have snap: "?p \<in> set (getActiveProxies tracker_example)"
    by (simp add: getActiveProxies_def tracker_example_def example_defs)
  have row: "map Status (proxies stale_snapshot_example) = [ProxyStatusError]"
    by (simp add: stale_snapshot_example_def tracker_example_def example_defs
          updateProxyStatus_def)
  from successful_probe_tests_snapshot_status
         [of "ok_probe 120" 50 default_maxProxyFailures ?p stale_snapshot_example]
  have "probe_err (ok_probe 120) = None \<longrightarrow>
      proxy_failures (checkProxyHealth 50 default_maxProxyFailures (ok_probe 120) ?p
                        stale_snapshot_example) (ID ?p) = None \<and>
      (Status ?p \<noteq> ProxyStatusError \<longrightarrow>
         map Status (proxies (checkProxyHealth 50 default_maxProxyFailures (ok_probe 120) ?p
                                stale_snapshot_example))
           = map Status (proxies stale_snapshot_example))"
    by (rule conjunct1)
  with h p row snap show ?thesis by (simp only: simp_thms)
qed

lemma updateProxyHealth_absorb:
  "updateProxyHealth t2 pid s ms (updateProxyHealth t1 pid s ms rows) =
     updateProxyHealth t2 pid s ms rows"
  by (simp add: updateProxyHealth_def)

lemma health_store_absorb:
  "redis_expire t2 (redis_hmset t2 (redis_expire t1 (redis_hmset t1 m k v1) k ttl) k v2) k ttl =
     redis_expire t2 (redis_hmset t2 m k v2) k ttl"
  by (auto simp: redis_expire_def redis_hmset_def live_def fun_eq_iff split: option.splits)

text \<open>
  C9. Two health updates of a proxy with the same success flag and latency leave the
  registry as the second of them alone would: the row's health flag, latency and every
  other column but the two time stamps are what the first call already wrote, while
  \<open>last_health_check\<close> and \<open>updated_at\<close> carry the time of the latest call. This holds
  of \<open>updateProxyHealth\<close> (ProxyService) and of \<open>updateProxyHealthStatus\<close>
  (HealthService, which also rewrites the \<open>proxy_health\<close> key). Called twice at the
  same clock reading, the update is idempotent.
\<close>

theorem updateHealth_twice_is_last_call:
  "updateProxyHealth t2 pid s ms (updateProxyHealth t1 pid s ms rows) =
     updateProxyHealth t2 pid s ms rows \<and>
   map (\<lambda>p. p\<lparr>LastHealthCheck := None, UpdatedAt := 0\<rparr>)
       (updateProxyHealth t2 pid s ms (updateProxyHealth t1 pid s ms rows)) =
     map (\<lambda>p. p\<lparr>LastHealthCheck := None, UpdatedAt := 0\<rparr>)
       (updateProxyHealth t1 pid s ms rows) \<and>
   updateProxyHealth t1 pid s ms (updateProxyHealth t1 pid s ms rows) =
     updateProxyHealth t1 pid s ms rows \<and>
   updateProxyHealthStatus t2 pid s ms e (updateProxyHealthStatus t1 pid s ms e st) =
     updateProxyHealthStatus t2 pid s ms e st"
proof -
  have 2: "map (\<lambda>p. p\<lparr>LastHealthCheck := None, UpdatedAt := 0\<rparr>)
       (updateProxyHealth t2 pid s ms (updateProxyHealth t1 pid s ms rows)) =
     map (\<lambda>p. p\<lparr>LastHealthCheck := None, UpdatedAt := 0\<rparr>)
       (updateProxyHealth t1 pid s ms rows)"
    by (simp add: updateProxyHealth_def)
  have 4: "updateProxyHealthStatus t2 pid s ms e (updateProxyHealthStatus t1 pid s ms e st) =
     updateProxyHealthStatus t2 pid s ms e st"
    by (simp add: updateProxyHealthStatus_def updateProxyHealth_absorb health_store_absorb)
  from 2 4 updateProxyHealth_absorb show ?thesis by blast
qed

theorem updateHealth_twice_counterexample:
  "updateProxyHealth 200 1 True 40
     (updateProxyHealth 100 1 True 40 [example_proxy 1 ProxyTypeHTTP ProxyStatusActive True 40])
   \<noteq> updateProxyHealth 100 1 True 40 [example_proxy 1 ProxyTypeHTTP ProxyStatusActive True 40]"
  by (simp add: updateProxyHealth_def example_defs)

subsection \<open>Quarantine after repeated failures\<close>

lemma redis_hmset_expire:
  "redis_expire now (redis_hmset now m k v) k ttl = m(k \<mapsto> (v, Some (now + ttl)))"
  by (auto simp: redis_expire_def redis_hmset_def live_def split: option.splits)

lemma redis_incr_expire:
  assumes "c = (case redis_get now m k of None \<Rightarrow> 0 | Some v \<Rightarrow> v)" "c \<noteq> 2 ^ 63 - 1"
  shows "\<exists>m'. redis_incr now m k = Some (c + 1, m') \<and>
              redis_expire now m' k ttl = m(k \<mapsto> (c + 1, Some (now + ttl)))"
  using assms
  by (auto simp: redis_incr_def redis_get_def redis_expire_def live_def
           split: option.splits if_splits)

lemma handleProxyFailure_step:
  assumes "c = (case redis_get now (proxy_failures st) (ID p) of None \<Rightarrow> 0 | Some v \<Rightarrow> v)"
    and "c \<noteq> 2 ^ 63 - 1"
  shows "handleProxyFailure now maxFailures p st =
     (if c + 1 \<ge> maxFailures
      then st\<lparr>proxies := updateProxyStatus now (ID p) ProxyStatusError (proxies st),
              proxy_failures := (proxy_failures st)(ID p := None),
              proxy_alert := (proxy_alert st)((ID p, now) \<mapsto>
                (\<lparr>al_proxy_id = ID p, al_proxy_name = Name p, al_proxy_host = Host p,
                  al_proxy_port = Port p, al_failure_count = c + 1, al_timestamp = now,
                  al_type = ''proxy_failure''\<rparr>, Some (now + 604800)))\<rparr>
      else st\<lparr>proxy_failures := (proxy_failures st)(ID p \<mapsto> (c + 1, Some (now + 3600)))\<rparr>)"
proof -
  from redis_incr_expire [OF assms, of 3600]
  obtain m' where m': "redis_incr now (proxy_failures st) (ID p) = Some (c + 1, m')"
    "redis_expire now m' (ID p) 3600 = (proxy_failures st)(ID p \<mapsto> (c + 1, Some (now + 3600)))"
    by blast
  show ?thesis
    by (simp add: handleProxyFailure_def m' Let_def notifyProxyFailure_def
          redis_hmset_expire redis_del_def)
qed

lemma failed_check_step:
  assumes "c = (case redis_get now (proxy_failures st) (ID p) of None \<Rightarrow> 0 | Some v \<Rightarrow> v)"
    and "c \<noteq> 2 ^ 63 - 1" and "probe_err outcome \<noteq> None"
  shows "map Status (proxies (checkProxyHealth now maxFailures outcome p st)) =
           (if c + 1 \<ge> maxFailures
            then map (\<lambda>q. if ID q = ID p then ProxyStatusError else Status q) (proxies st)
            else map Status (proxies st))"
    and "proxy_failures (checkProxyHealth now maxFailures outcome p st) =
           (if c + 1 \<ge> maxFailures then (proxy_failures st)(ID p := None)
            else (proxy_failures st)(ID p \<mapsto> (c + 1, Some (now + 3600))))"
    and "proxy_alert (checkProxyHealth now maxFailures outcome p st) =
           (if c + 1 \<ge> maxFailures
            then (proxy_alert st)((ID p, now) \<mapsto>
                (\<lparr>al_proxy_id = ID p, al_proxy_name = Name p, al_proxy_host = Host p,
                  al_proxy_port = Port p, al_failure_count = c + 1, al_timestamp = now,
                  al_type = ''proxy_failure''\<rparr>, Some (now + 604800)))
            else proxy_alert st)"
proof -
  obtain e where e: "probe_err outcome = Some e" using assms(3) by auto
  let ?st1 = "updateProxyHealthStatus now (ID p) False (probe_duration_ms outcome) e st"
  have chk: "checkProxyHealth now maxFailures outcome p st =
               handleProxyFailure now maxFailures p ?st1"
    by (simp add: checkProxyHealth_def Let_def e)
  have c1: "c = (case redis_get now (proxy_failures ?st1) (ID p) of None \<Rightarrow> 0 | Some v \<Rightarrow> v)"
    using assms(1) by (simp add: updateProxyHealthStatus_frame)
  note step = handleProxyFailure_step [OF c1 assms(2), of maxFailures]
  show "map Status (proxies (checkProxyHealth now maxFailures outcome p st)) =
           (if c + 1 \<ge> maxFailures
            then map (\<lambda>q. if ID q = ID p then ProxyStatusError else Status q) (proxies st)
            else map Status (proxies st))"
    unfolding chk step
    by (simp add: updateProxyStatus_def updateProxyHealthStatus_def updateProxyHealth_def)
  show "proxy_failures (checkProxyHealth now maxFailures outcome p st) =
           (if c + 1 \<ge> maxFailures then (proxy_failures st)(ID p := None)
            else (proxy_failures st)(ID p \<mapsto> (c + 1, Some (now + 3600))))"
    unfolding chk step by (simp add: updateProxyHealthStatus_frame)
  show "proxy_alert (checkProxyHealth now maxFailures outcome p st) =
           (if c + 1 \<ge> maxFailures
            then (proxy_alert st)((ID p, now) \<mapsto>
                (\<lparr>al_proxy_id = ID p, al_proxy_name = Name p, al_proxy_host = Host p,
                  al_proxy_port = Port p, al_failure_count = c + 1, al_timestamp = now,
                  al_type = ''proxy_failure''\<rparr>, Some (now + 604800)))
            else proxy_alert st)"
    unfolding chk step by (simp add: updateProxyHealthStatus_frame)
qed

lemma handleProxyFailure_ids:
  "map ID (proxies (handleProxyFailure now maxFailures p st)) = map ID (proxies st)"
  by (simp add: handleProxyFailure_def Let_def notifyProxyFailure_def updateProxyStatus_def
        comp_def split: option.splits prod.splits)

lemma handleProxySuccess_ids:
  "map ID (proxies (handleProxySuccess now p st)) = map ID (proxies st)"
  by (simp add: handleProxySuccess_def Let_def updateProxyStatus_def comp_def)

lemma checkProxyHealth_ids:
  "map ID (proxies (checkProxyHealth now maxFailures outcome p st)) = map ID (proxies st)"
  by (simp add: checkProxyHealth_def Let_def handleProxyFailure_ids handleProxySuccess_ids
        updateProxyHealthStatus_frame)

lemma failures_below_threshold:
  assumes "probes \<noteq> []"
    and "\<forall>x\<in>set probes. probe_err (snd x) \<noteq> None"
    and "successively (\<lambda>a b. fst b \<le> fst a + 3600) probes"
    and "c = (case redis_get (fst (hd probes)) (proxy_failures st) (ID p) of
                None \<Rightarrow> 0 | Some v \<Rightarrow> v)"
    and "0 \<le> c" and "c + int (length probes) < maxFailures" and "maxFailures < 2 ^ 63"
  shows "map Status (proxies (foldl (\<lambda>s x. checkProxyHealth (fst x) maxFailures (snd x) p s)
                                st probes)) = map Status (proxies st) \<and>
         proxy_alert (foldl (\<lambda>s x. checkProxyHealth (fst x) maxFailures (snd x) p s) st probes)
           = proxy_alert st \<and>
         proxy_failures (foldl (\<lambda>s x. checkProxyHealth (fst x) maxFailures (snd x) p s)
                           st probes)
           = (proxy_failures st)(ID p \<mapsto>
                (c + int (length probes), Some (fst (last probes) + 3600)))"
  using assms
proof (induction probes arbitrary: st c)
  case Nil
  then show ?case by simp
next
  case (Cons x xs)
  let ?st1 = "checkProxyHealth (fst x) maxFailures (snd x) p st"
  have c: "c = (case redis_get (fst x) (proxy_failures st) (ID p) of None \<Rightarrow> 0 | Some v \<Rightarrow> v)"
    using Cons.prems(4) by simp
  have nb: "c \<noteq> 2 ^ 63 - 1" "\<not> c + 1 \<ge> maxFailures"
    using Cons.prems(5,6,7) by simp_all
  have f: "probe_err (snd x) \<noteq> None" using Cons.prems(2) by simp
  note s = failed_check_step [OF c nb(1) f, of maxFailures]
  have s1: "map Status (proxies ?st1) = map Status (proxies st)"
    and s2: "proxy_failures ?st1 = (proxy_failures st)(ID p \<mapsto> (c + 1, Some (fst x + 3600)))"
    and s3: "proxy_alert ?st1 = proxy_alert st"
    using s nb(2) by simp_all
  show ?case
  proof (cases "xs = []")
    case True
    with s1 s2 s3 show ?thesis by simp
  next
    case False
    then obtain y ys where xs: "xs = y # ys" by (cases xs) auto
    have win: "fst y \<le> fst x + 3600" and succ: "successively (\<lambda>a b. fst b \<le> fst a + 3600) xs"
      using Cons.prems(3) by (simp_all add: xs)
    have c1: "c + 1 = (case redis_get (fst (hd xs)) (proxy_failures ?st1) (ID p) of
                        None \<Rightarrow> 0 | Some v \<Rightarrow> v)"
      using win by (simp add: s2 xs redis_get_def live_def)
    have "map Status (proxies (foldl (\<lambda>s x. checkProxyHealth (fst x) maxFailures (snd x) p s)
                                ?st1 xs)) = map Status (proxies ?st1) \<and>
         proxy_alert (foldl (\<lambda>s x. checkProxyHealth (fst x) maxFailures (snd x) p s) ?st1 xs)
           = proxy_alert ?st1 \<and>
         proxy_failures (foldl (\<lambda>s x. checkProxyHealth (fst x) maxFailures (snd x) p s)
                           ?st1 xs)
           = (proxy_failures ?st1)(ID p \<mapsto>
                (c + 1 + int (length xs), Some (fst (last xs) + 3600)))"
      using Cons.prems(2,5,6,7) by (intro Cons.IH [OF False _ succ c1]) simp_all
    then show ?thesis
      using False by (simp add: s1 s2 s3 add.assoc)
  qed
qed


text \<open>
  C1. Let a proxy's failure counter be absent (or expired), let the threshold
  \<open>maxFailures\<close> be at least 1, and let \<open>maxFailures\<close> probes of the proxy fail in
  a row, each at most 3600 seconds after the one before, so that the counter never
  expires in between. Then the proxy's row has status \<open>error\<close> and no other row
  changed its status, the failure counter is deleted, and the alert store has gained
  exactly one record, under the key of the proxy id and the time of the last probe: it
  carries the proxy's id, name, host and port and the failure count \<open>maxFailures\<close>,
  and expires after seven days.
\<close>

theorem quarantine_after_max_failures:
  assumes "1 \<le> maxFailures" and "maxFailures < 2 ^ 63"
    and "length probes = nat maxFailures"
    and "\<forall>x\<in>set probes. probe_err (snd x) \<noteq> None"
    and "successively (\<lambda>a b. fst b \<le> fst a + 3600) probes"
    and "redis_get (fst (hd probes)) (proxy_failures st) (ID p) = None"
  shows "map Status (proxies (foldl (\<lambda>s x. checkProxyHealth (fst x) maxFailures (snd x) p s)
                                st probes))
           = map (\<lambda>q. if ID q = ID p then ProxyStatusError else Status q) (proxies st) \<and>
         proxy_failures (foldl (\<lambda>s x. checkProxyHealth (fst x) maxFailures (snd x) p s)
                           st probes)
           = (proxy_failures st)(ID p := None) \<and>
         proxy_alert (foldl (\<lambda>s x. checkProxyHealth (fst x) maxFailures (snd x) p s) st probes)
           = (proxy_alert st)((ID p, fst (last probes)) \<mapsto>
                (\<lparr>al_proxy_id = ID p, al_proxy_name = Name p, al_proxy_host = Host p,
                  al_proxy_port = Port p, al_failure_count = maxFailures,
                  al_timestamp = fst (last probes), al_type = ''proxy_failure''\<rparr>,
                 Some (fst (last probes) + 604800)))"
proof -
  let ?run = "foldl (\<lambda>s x. checkProxyHealth (fst x) maxFailures (snd x) p s)"
  from assms(1,3) have "probes \<noteq> []" by auto
  then obtain ps x where probes: "probes = ps @ [x]"
    by (cases probes rule: rev_cases) auto
  have len: "int (length ps) = maxFailures - 1"
    using assms(1,3) by (simp add: probes)
  have fx: "probe_err (snd x) \<noteq> None" using assms(4) by (simp add: probes)
  have run: "?run st probes = checkProxyHealth (fst x) maxFailures (snd x) p (?run st ps)"
    by (simp add: probes)
  have mid: "map Status (proxies (?run st ps)) = map Status (proxies st) \<and>
             proxy_alert (?run st ps) = proxy_alert st \<and>
             (proxy_failures (?run st ps))(ID p := None) = (proxy_failures st)(ID p := None) \<and>
             maxFailures - 1 = (case redis_get (fst x) (proxy_failures (?run st ps)) (ID p) of
                                  None \<Rightarrow> 0 | Some v \<Rightarrow> v)"
  proof (cases "ps = []")
    case True
    with len assms(6) show ?thesis by (simp add: probes)
  next
    case False
    have f: "\<forall>y\<in>set ps. probe_err (snd y) \<noteq> None" using assms(4) by (simp add: probes)
    have succ: "successively (\<lambda>a b. fst b \<le> fst a + 3600) ps"
      and win: "fst x \<le> fst (last ps) + 3600"
      using assms(5) False by (simp_all add: probes successively_append_iff)
    have c0: "0 = (case redis_get (fst (hd ps)) (proxy_failures st) (ID p) of
                     None \<Rightarrow> 0 | Some v \<Rightarrow> v)"
      using assms(6) False by (simp add: probes)
    have below: "0 + int (length ps) < maxFailures" using len by simp
    from failures_below_threshold [OF False f succ c0 _ below assms(2)]
    have inv: "map Status (proxies (?run st ps)) = map Status (proxies st)"
      "proxy_alert (?run st ps) = proxy_alert st"
      "proxy_failures (?run st ps) =
         (proxy_failures st)(ID p \<mapsto> (0 + int (length ps), Some (fst (last ps) + 3600)))"
      by simp_all
    from inv win len show ?thesis by (simp add: redis_get_def live_def)
  qed
  have nb: "maxFailures - 1 \<noteq> 2 ^ 63 - 1" using assms(2) by simp
  from mid have m1: "map Status (proxies (?run st ps)) = map Status (proxies st)"
    and m2: "proxy_alert (?run st ps) = proxy_alert st"
    and m3: "(proxy_failures (?run st ps))(ID p := None) = (proxy_failures st)(ID p := None)"
    and m4: "maxFailures - 1 = (case redis_get (fst x) (proxy_failures (?run st ps)) (ID p) of
                                  None \<Rightarrow> 0 | Some v \<Rightarrow> v)"
    by simp_all
  note s = failed_check_step [OF m4 nb fx, of maxFailures]
  have lastp: "fst (last probes) = fst x" by (simp add: probes)
  have 1: "map Status (proxies (?run st probes))
           = map (\<lambda>q. if ID q = ID p then ProxyStatusError else Status q) (proxies st)"
  proof -
    have "map Status (proxies (?run st probes))
            = map (\<lambda>q. if ID q = ID p then ProxyStatusError else Status q) (proxies (?run st ps))"
      unfolding run using s(1) by simp
    also have "\<dots> = map (\<lambda>q. if ID q = ID p then ProxyStatusError else Status q) (proxies st)"
    proof -
      have ids: "map ID (proxies (?run st ps)) = map ID (proxies st)"
        by (induction ps arbitrary: st)
           (simp_all add: checkProxyHealth_ids)
      have "map (\<lambda>q. if ID q = ID p then ProxyStatusError else Status q) rows
              = map (\<lambda>(i, s). if i = ID p then ProxyStatusError else s)
                  (zip (map ID rows) (map Status rows))" for rows :: "Proxy list"
        by (induction rows) simp_all
      with ids m1 show ?thesis by simp
    qed
    finally show ?thesis .
  qed
  have 2: "proxy_failures (?run st probes) = (proxy_failures st)(ID p := None)"
    unfolding run using s(2) m3 by simp
  have 3: "proxy_alert (?run st probes)
           = (proxy_alert st)((ID p, fst (last probes)) \<mapsto>
                (\<lparr>al_proxy_id = ID p, al_proxy_name = Name p, al_proxy_host = Host p,
                  al_proxy_port = Port p, al_failure_count = maxFailures,
                  al_timestamp = fst (last probes), al_type = ''proxy_failure''\<rparr>,
                 Some (fst (last probes) + 604800)))"
    unfolding run lastp using s(3) m2 by simp
  from 1 2 3 show ?thesis by blast
qed


theorem quarantine_after_max_failures_witness:
  "map Status (proxies (foldl
       (\<lambda>s x. checkProxyHealth (fst x) default_maxProxyFailures (snd x)
                 (example_proxy 1 ProxyTypeHTTP ProxyStatusActive True 40) s)
       tracker_example
       [(100, failed_probe 30000), (400, failed_probe 12), (700, failed_probe 30000)]))
     = [ProxyStatusError] \<and>
   proxy_failures (foldl
       (\<lambda>s x. checkProxyHealth (fst x) default_maxProxyFailures (snd x)
                 (example_proxy 1 ProxyTypeHTTP ProxyStatusActive True 40) s)
       tracker_example
       [(100, failed_probe 30000), (400, failed_probe 12), (700, failed_probe 30000)]) 1
     = None \<and>
   proxy_alert (foldl
       (\<lambda>s x. checkProxyHealth (fst x) default_maxProxyFailures (snd x)
                 (example_proxy 1 ProxyTypeHTTP ProxyStatusActive True 40) s)
       tracker_example
       [(100, failed_probe 30000), (400, failed_probe 12), (700, failed_probe 30000)])
     = [(1, 700) \<mapsto>
          (\<lparr>al_proxy_id = 1, al_proxy_name = ''proxy'', al_proxy_host = ''proxy.example.com'',
            al_proxy_port = 8081, al_failure_count = 3, al_timestamp = 700,
            al_type = ''proxy_failure''\<rparr>, Some 605500)]"
proof -
  let ?p = "example_proxy 1 ProxyTypeHTTP ProxyStatusActive True 40"
  let ?probes = "[(100::nat, failed_probe 30000), (400, failed_probe 12), (700, failed_probe 30000)]"
  have 1: "1 \<le> default_maxProxyFailures" "default_maxProxyFailures < 2 ^ 63"
    "length ?probes = nat default_maxProxyFailures"
    by (simp_all add: default_maxProxyFailures_def)
  have 2: "\<forall>x\<in>set ?probes. probe_err (snd x) \<noteq> None"
    by (simp add: failed_probe_def)
  have 3: "successively (\<lambda>a b. fst b \<le> fst a + 3600) ?probes"
    by simp
  have 4: "redis_get (fst (hd ?probes)) (proxy_failures tracker_example) (ID ?p) = None"
    by (simp add: redis_get_def tracker_example_def example_defs)
  have 5: "map (\<lambda>q. if ID q = ID ?p then ProxyStatusError else Status q)
             (proxies tracker_example) = [ProxyStatusError]"
    "proxy_failures tracker_example = Map.empty" "proxy_alert tracker_example = Map.empty"
    "ID ?p = 1" "Name ?p = ''proxy''" "Host ?p = ''proxy.example.com''" "Port ?p = 8081"
    by (simp_all add: tracker_example_def example_defs)
  from quarantine_after_max_failures [OF 1 2 3 4] 5
  show ?thesis by (simp add: default_maxProxyFailures_def)
qed

theorem quarantine_after_max_failures_counterexample:
  "map Status (proxies (foldl
       (\<lambda>s x. checkProxyHealth (fst x) default_maxProxyFailures (snd x)
                 (example_proxy 1 ProxyTypeHTTP ProxyStatusActive True 40) s)
       tracker_example
       [(0, failed_probe 30000), (4000, failed_probe 30000), (8000, failed_probe 30000)]))
     = [ProxyStatusActive] \<and>
   proxy_alert (foldl
       (\<lambda>s x. checkProxyHealth (fst x) default_maxProxyFailures (snd x)
                 (example_proxy 1 ProxyTypeHTTP ProxyStatusActive True 40) s)
       tracker_example
       [(0, failed_probe 30000), (4000, failed_probe 30000), (8000, failed_probe 30000)])
     = Map.empty \<and>
   proxy_failures (foldl
       (\<lambda>s x. checkProxyHealth (fst x) default_maxProxyFailures (snd x)
                 (example_proxy 1 ProxyTypeHTTP ProxyStatusActive True 40) s)
       tracker_example
       [(0, failed_probe 30000), (4000, failed_probe 30000), (8000, failed_probe 30000)]) 1
     = Some (1, Some 11600)"
  by (simp add: checkProxyHealth_def handleProxyFailure_def updateProxyHealthStatus_def
        updateProxyHealth_def redis_incr_def redis_expire_def redis_hmset_def live_def
        failed_probe_def default_maxProxyFailures_def tracker_example_def example_defs
        Let_def)

subsection \<open>What a sweep probes\<close>

lemma getActiveProxies_set:
  "set (getActiveProxies st) = {p \<in> set (proxies st). Status p = ProxyStatusActive}"
  by (auto simp: getActiveProxies_def)

lemma updateProxyStatus_keeps_other:
  "q \<in> set rows \<Longrightarrow> ID q \<noteq> pid \<Longrightarrow> q \<in> set (updateProxyStatus now pid s rows)"
  by (force simp: updateProxyStatus_def)

lemma updateProxyHealth_keeps_other:
  "q \<in> set rows \<Longrightarrow> ID q \<noteq> pid \<Longrightarrow> q \<in> set (updateProxyHealth now pid s ms rows)"
  by (force simp: updateProxyHealth_def)

lemma checkProxyHealth_keeps_other:
  assumes "q \<in> set (proxies st)" "ID q \<noteq> ID p"
  shows "q \<in> set (proxies (checkProxyHealth now maxFailures outcome p st))"
proof -
  have 1: "q \<in> set (proxies (updateProxyHealthStatus now (ID p) b ms e st))" for b ms e
    using assms by (simp add: updateProxyHealthStatus_def updateProxyHealth_keeps_other)
  have 2: "q \<in> set (proxies (handleProxySuccess now p s))" if "q \<in> set (proxies s)" for s
    using that assms(2)
    by (simp add: handleProxySuccess_def Let_def updateProxyStatus_keeps_other)
  have 3: "q \<in> set (proxies (handleProxyFailure now maxFailures p s))"
    if "q \<in> set (proxies s)" for s
    using that assms(2)
    by (simp add: handleProxyFailure_def Let_def notifyProxyFailure_def
          updateProxyStatus_keeps_other split: option.splits prod.splits)
  show ?thesis
    by (simp add: checkProxyHealth_def Let_def 1 2 3)
qed

lemma checks_keep_other:
  assumes "q \<in> set (proxies st)" "\<forall>p\<in>set ps. ID p \<noteq> ID q"
  shows "q \<in> set (proxies (foldl (\<lambda>s p. checkProxyHealth now maxFailures (probe p) p s) st ps))"
  using assms
proof (induction ps arbitrary: st)
  case Nil
  then show ?case by simp
next
  case (Cons p ps)
  from Cons.prems have "q \<in> set (proxies (checkProxyHealth now maxFailures (probe p) p st))"
    by (intro checkProxyHealth_keeps_other) auto
  with Cons.IH Cons.prems(2) show ?case by simp
qed

lemma checks_ids:
  "map ID (proxies (foldl (\<lambda>s p. checkProxyHealth now maxFailures (probe p) p s) st ps))
     = map ID (proxies st)"
  by (induction ps arbitrary: st) (simp_all add: checkProxyHealth_ids)

lemma runHealthCheckCycle_ids:
  "map ID (proxies (runHealthCheckCycle now maxFailures probe st)) = map ID (proxies st)"
  by (simp add: runHealthCheckCycle_def Let_def checks_ids)

lemma runHealthCheckCycle_keeps_quarantined:
  assumes "distinct (map ID (proxies st))" "q \<in> set (proxies st)" "Status q = ProxyStatusError"
  shows "q \<in> set (proxies (runHealthCheckCycle now maxFailures probe st))"
proof -
  have "\<forall>p\<in>set (getActiveProxies st). ID p \<noteq> ID q"
  proof
    fix p assume "p \<in> set (getActiveProxies st)"
    then have p: "p \<in> set (proxies st)" "Status p = ProxyStatusActive"
      by (simp_all add: getActiveProxies_set)
    with assms(3) have "p \<noteq> q" by auto
    moreover from assms(1) have "inj_on ID (set (proxies st))" by (simp add: distinct_map)
    ultimately show "ID p \<noteq> ID q" using p(1) assms(2) by (auto dest: inj_onD)
  qed
  with assms(2) show ?thesis
    by (simp add: runHealthCheckCycle_def Let_def checks_keep_other)
qed

text \<open>
  C3. The sweep fetches its snapshot with \<open>WHERE status = 'active'\<close>, so a row whose
  status is \<open>error\<close> is in no snapshot: whatever the probes of the other proxies
  report, after any number of sweeps the row is exactly as it was (status \<open>error\<close>,
  same \<open>last_health_check\<close>), it is still outside the next snapshot, and it is outside
  the pool of every assignment strategy. The sweeps alone never probe a quarantined
  proxy again, and \<open>handleProxySuccess\<close> is never run for it.
\<close>

theorem quarantined_proxy_never_probed_again:
  assumes "distinct (map ID (proxies st))" and "q \<in> set (proxies st)"
    and "Status q = ProxyStatusError"
  shows "q \<in> set (proxies (foldl (\<lambda>s x. runHealthCheckCycle (fst x) maxFailures (snd x) s)
                              st sweeps)) \<and>
         q \<notin> set (getActiveProxies
                    (foldl (\<lambda>s x. runHealthCheckCycle (fst x) maxFailures (snd x) s)
                       st sweeps)) \<and>
         q \<notin> set (candidates
                    (foldl (\<lambda>s x. runHealthCheckCycle (fst x) maxFailures (snd x) s)
                       st sweeps) t)"
proof -
  have "q \<in> set (proxies (foldl (\<lambda>s x. runHealthCheckCycle (fst x) maxFailures (snd x) s)
                              st sweeps))"
    using assms(1,2)
  proof (induction sweeps arbitrary: st)
    case Nil
    then show ?case by simp
  next
    case (Cons x xs)
    let ?st1 = "runHealthCheckCycle (fst x) maxFailures (snd x) st"
    have "distinct (map ID (proxies ?st1))"
      using Cons.prems(1) by (simp add: runHealthCheckCycle_ids)
    moreover have "q \<in> set (proxies ?st1)"
      using Cons.prems assms(3) by (intro runHealthCheckCycle_keeps_quarantined)
    ultimately show ?case using Cons.IH by simp
  qed
  then show ?thesis
    using assms(3) by (simp add: getActiveProxies_set candidates_iff)
qed

theorem quarantined_proxy_never_probed_again_witness:
  "example_proxy 1 ProxyTypeHTTP ProxyStatusError False 900
     \<in> set (proxies (foldl (\<lambda>s x. runHealthCheckCycle (fst x) default_maxProxyFailures (snd x) s)
                        quarantined_example
                        [(300, \<lambda>p. ok_probe 20), (600, \<lambda>p. ok_probe 20)])) \<and>
   example_proxy 1 ProxyTypeHTTP ProxyStatusError False 900
     \<notin> set (getActiveProxies
               (foldl (\<lambda>s x. runHealthCheckCycle (fst x) default_maxProxyFailures (snd x) s)
                  quarantined_example
                  [(300, \<lambda>p. ok_probe 20), (600, \<lambda>p. ok_probe 20)]))"
proof -
  let ?q = "example_proxy 1 ProxyTypeHTTP ProxyStatusError False 900"
  have 1: "distinct (map ID (proxies quarantined_example))"
    and 2: "?q \<in> set (proxies quarantined_example)"
    and 3: "Status ?q = ProxyStatusError"
    by (simp_all add: quarantined_example_def example_defs)
  from quarantined_proxy_never_probed_again [OF 1 2 3,
         of default_maxProxyFailures "[(300, \<lambda>p. ok_probe 20), (600, \<lambda>p. ok_probe 20)]"]
  show ?thesis by blast
qed

subsection \<open>Round-robin assignment\<close>

lemma go_rem_nonneg: "0 \<le> a \<Longrightarrow> 0 < b \<Longrightarrow> go_rem a b = a mod b"
  by (cases "a = 0") (simp_all add: go_rem_def)

lemma int64_wrap_id: "- (2 ^ 63) \<le> x \<Longrightarrow> x < 2 ^ 63 \<Longrightarrow> int64_wrap x = x"
  by (simp add: int64_wrap_def)

lemma GetAvailableProxies_proxies:
  "proxies st' = proxies st \<Longrightarrow> GetAvailableProxies st' t = GetAvailableProxies st t"
  by (simp add: GetAvailableProxies_def)

lemma GetAvailableProxies_ids:
  "p \<in> set (GetAvailableProxies st t) \<Longrightarrow> ID p \<in> ID ` set (proxies st)"
  by (auto simp: GetAvailableProxies_def scan_available_def)

lemma selectRoundRobinProxy_step:
  assumes "pool = GetAvailableProxies st t" and "pool \<noteq> []"
    and "c = (case proxy_round_robin st t of None \<Rightarrow> 0 | Some i \<Rightarrow> i)"
    and "0 \<le> c" and "c < 2 ^ 63 - 1"
  shows "selectRoundRobinProxy st t =
           (Inr (ID (pool ! (nat c mod length pool))),
            st\<lparr>proxy_round_robin :=
                 (proxy_round_robin st)(t \<mapsto> (c + 1) mod int (length pool))\<rparr>)"
proof -
  have n: "0 < int (length pool)" using assms(2) by simp
  have r: "go_rem c (int (length pool)) = c mod int (length pool)"
    using assms(4) n by (rule go_rem_nonneg)
  have w: "int64_wrap (c + 1) = c + 1"
    using assms(4,5) by (intro int64_wrap_id) simp_all
  have r1: "go_rem (c + 1) (int (length pool)) = (c + 1) mod int (length pool)"
    using assms(4) n by (intro go_rem_nonneg) simp_all
  have i: "nat (c mod int (length pool)) = nat c mod length pool"
    using assms(4) by (simp add: nat_mod_distrib)
  have nn: "\<not> c mod int (length pool) < 0"
    using n by (simp add: not_less)
  show ?thesis
    unfolding selectRoundRobinProxy_def Let_def assms(1) [symmetric] assms(3) [symmetric]
    using assms(2) nn by (simp add: r w r1 i)
qed


lemma AssignProxy_round_robin_step:
  assumes "pool = GetAvailableProxies st t" and "pool \<noteq> []"
    and "c = (case proxy_round_robin st t of None \<Rightarrow> 0 | Some i \<Rightarrow> i)"
    and "0 \<le> c" and "c < 2 ^ 63 - 1"
    and "req_ProxyID req = None" and "req_Strategy req = ''round_robin''"
    and "req_ProxyType req = t"
  shows "\<exists>resp. AssignProxy now req st =
           (Inr resp,
            st\<lparr>proxy_round_robin :=
                 (proxy_round_robin st)(t \<mapsto> (c + 1) mod int (length pool)),
               accounts := set_account_proxy now (req_AccountID req)
                 (Some (ID (pool ! (nat c mod length pool)))) (accounts st)\<rparr>) \<and>
           resp_ProxyID resp = ID (pool ! (nat c mod length pool))"
proof -
  let ?pid = "ID (pool ! (nat c mod length pool))"
  let ?st1 = "st\<lparr>proxy_round_robin :=
                 (proxy_round_robin st)(t \<mapsto> (c + 1) mod int (length pool))\<rparr>"
  have sel: "selectProxyByStrategy st ''round_robin'' t = (Inr ?pid, ?st1)"
    by (simp add: selectProxyByStrategy_def selectRoundRobinProxy_step [OF assms(1-5)])
  have "pool ! (nat c mod length pool) \<in> set pool"
    using assms(2) by simp
  then have "?pid \<in> ID ` set (proxies st)"
    unfolding assms(1) by (rule GetAvailableProxies_ids)
  then obtain p where "p \<in> set (proxies ?st1)" "ID p = ?pid" by auto
  with GetProxy_found [of p ?st1] obtain p' where "GetProxy ?st1 ?pid = Inr p'" by auto
  then show ?thesis
    using assms(6,7,8) by (simp add: AssignProxy_def Let_def sel assign_row_def)
qed

lemma assign_each_round_robin:
  assumes "GetAvailableProxies st t = pool" and "pool \<noteq> []"
    and "int (length pool) < 2 ^ 63"
    and "c = (case proxy_round_robin st t of None \<Rightarrow> 0 | Some i \<Rightarrow> i)"
    and "0 \<le> c" and "c < 2 ^ 63 - 1"
    and "\<forall>x\<in>set reqs. req_ProxyID (snd x) = None \<and> req_Strategy (snd x) = ''round_robin'' \<and>
                         req_ProxyType (snd x) = t"
  shows "map (assigned_proxy) (fst (assign_each reqs st)) =
           map (\<lambda>i. Inr (ID (pool ! ((nat c + i) mod length pool)))) [0..<length reqs]"
  using assms(1,4,5,6,7)
proof (induction reqs arbitrary: st c)
  case Nil
  then show ?case by simp
next
  case (Cons x xs)
  let ?n = "length pool"
  let ?st1 = "st\<lparr>proxy_round_robin := (proxy_round_robin st)(t \<mapsto> (c + 1) mod int ?n),
                 accounts := set_account_proxy (fst x) (req_AccountID (snd x))
                   (Some (ID (pool ! (nat c mod ?n)))) (accounts st)\<rparr>"
  have x: "req_ProxyID (snd x) = None" "req_Strategy (snd x) = ''round_robin''"
    "req_ProxyType (snd x) = t"
    using Cons.prems(5) by simp_all
  from AssignProxy_round_robin_step [OF Cons.prems(1) [symmetric] assms(2) Cons.prems(2,3,4) x]
  obtain resp where resp: "AssignProxy (fst x) (snd x) st = (Inr resp, ?st1)"
    "resp_ProxyID resp = ID (pool ! (nat c mod ?n))"
    by blast
  have pool1: "GetAvailableProxies ?st1 t = pool"
    using Cons.prems(1) by (simp add: GetAvailableProxies_def)
  have n: "0 < int ?n" using assms(2) by simp
  have c1: "(c + 1) mod int ?n = (case proxy_round_robin ?st1 t of None \<Rightarrow> 0 | Some i \<Rightarrow> i)"
    by simp
  have c1_lo: "0 \<le> (c + 1) mod int ?n" using n by simp
  have "(c + 1) mod int ?n < int ?n" using n by simp
  with assms(3) have c1_hi: "(c + 1) mod int ?n < 2 ^ 63 - 1" by simp
  have rest: "\<forall>y\<in>set xs. req_ProxyID (snd y) = None \<and> req_Strategy (snd y) = ''round_robin'' \<and>
                         req_ProxyType (snd y) = t"
    using Cons.prems(5) by simp
  note IH = Cons.IH [OF pool1 c1 c1_lo c1_hi rest]
  have idx: "(nat ((c + 1) mod int ?n) + i) mod ?n = (nat c + Suc i) mod ?n" for i
  proof -
    have "nat ((c + 1) mod int ?n) = (nat c + 1) mod ?n"
      using Cons.prems(3) by (simp add: nat_mod_distrib nat_add_distrib)
    then show ?thesis by (simp add: mod_add_left_eq)
  qed
  obtain ress st2 where r: "assign_each xs ?st1 = (ress, st2)"
    by (cases "assign_each xs ?st1") auto
  have "map (assigned_proxy) ress =
          map (\<lambda>i. Inr (ID (pool ! ((nat c + Suc i) mod ?n)))) [0..<length xs]"
    using IH unfolding r idx by simp
  then have "map (assigned_proxy) (fst (assign_each (x # xs) st)) =
          Inr (ID (pool ! (nat c mod ?n))) #
          map (\<lambda>i. Inr (ID (pool ! ((nat c + Suc i) mod ?n)))) [0..<length xs]"
    by (simp add: resp r assigned_proxy_def)
  also have "\<dots> = map (\<lambda>i. Inr (ID (pool ! ((nat c + i) mod ?n)))) [0..<length (x # xs)]"
    by (simp add: map_upt_Suc del: upt_Suc)
  finally show ?case .
qed

lemma mset_rotate_same: "mset (rotate k xs) = mset xs"
proof -
  let ?j = "k mod length xs"
  have "mset (rotate k xs) = mset (drop ?j xs) + mset (take ?j xs)"
    by (simp add: rotate_drop_take)
  also have "\<dots> = mset (take ?j xs @ drop ?j xs)"
    by (simp only: mset_append add.commute)
  finally show ?thesis by simp
qed

lemma ring_is_rotate:
  assumes "pool \<noteq> []"
  shows "map (\<lambda>i. f (pool ! ((k + i) mod length pool))) [0..<length pool] =
           map f (rotate k pool)"
  by (rule nth_equalityI) (simp_all add: nth_rotate)

text \<open>
  C5. Let the pool of available proxies (in the order of \<open>GetAvailableProxies\<close>) be
  non-empty and let the cursor of the filter scope be absent (read as 0) or lie in
  \<open>0 \<le> c < 2^63 - 1\<close>, as every cursor does that the selector wrote itself. Then one
  round-robin selection picks \<open>pool[c mod len(pool)]\<close> and writes back
  \<open>(c + 1) mod len(pool)\<close>, and a run of \<open>len(pool)\<close> round-robin assignments, with
  nothing else changing the registry in between, assigns the proxies of the pool in ring
  order starting at the cursor: each proxy of the pool exactly once before any repeats.
\<close>

theorem round_robin_visits_whole_pool:
  assumes "pool = GetAvailableProxies st t" and "pool \<noteq> []"
    and "int (length pool) < 2 ^ 63"
    and "c = (case proxy_round_robin st t of None \<Rightarrow> 0 | Some i \<Rightarrow> i)"
    and "0 \<le> c" and "c < 2 ^ 63 - 1"
    and "length reqs = length pool"
    and "\<forall>x\<in>set reqs. req_ProxyID (snd x) = None \<and> req_Strategy (snd x) = ''round_robin'' \<and>
                         req_ProxyType (snd x) = t"
  shows "selectRoundRobinProxy st t =
           (Inr (ID (pool ! (nat c mod length pool))),
            st\<lparr>proxy_round_robin :=
                 (proxy_round_robin st)(t \<mapsto> (c + 1) mod int (length pool))\<rparr>) \<and>
         map (assigned_proxy) (fst (assign_each reqs st)) =
           map (\<lambda>p. Inr (ID p)) (rotate (nat c) pool) \<and>
         mset (map (assigned_proxy) (fst (assign_each reqs st))) =
           mset (map (\<lambda>p. Inr (ID p)) pool) \<and>
         (distinct (map ID (proxies st)) \<longrightarrow>
            distinct (map (assigned_proxy) (fst (assign_each reqs st))))"
proof -
  have run: "map (assigned_proxy) (fst (assign_each reqs st)) =
           map (\<lambda>p. Inr (ID p)) (rotate (nat c) pool)"
    using assign_each_round_robin [OF assms(1) [symmetric] assms(2,3,4,5,6,8)]
          ring_is_rotate [OF assms(2), of "\<lambda>p. Inr (ID p)" "nat c"]
    by (simp add: assms(7))
  have ms: "mset (map (assigned_proxy) (fst (assign_each reqs st))) =
           mset (map (\<lambda>p. Inr (ID p)) pool)"
    unfolding run by (simp add: mset_rotate_same)
  have d: "distinct (map (assigned_proxy) (fst (assign_each reqs st)))"
    if "distinct (map ID (proxies st))"
  proof -
    have "map ID pool = map ID (sort_key ResponseTimeMs (filter (available t) (proxies st)))"
      by (simp add: assms(1) GetAvailableProxies_def scan_available_def comp_def)
    moreover have "distinct (map ID (sort_key ResponseTimeMs (filter (available t) (proxies st))))"
      using that by (simp add: distinct_map inj_on_def) 
    ultimately have "distinct (map ID pool)" by simp
    then have "distinct (map ID (rotate (nat c) pool))"
      by (simp add: rotate_map [symmetric])
    then have "distinct (map (\<lambda>p. Inr (ID p) :: error + int) (rotate (nat c) pool))"
      by (simp add: distinct_map inj_on_def)
    then show ?thesis by (simp add: run)
  qed
  from selectRoundRobinProxy_step [OF assms(1,2,4,5,6)] run ms d show ?thesis by blast
qed


theorem round_robin_visits_whole_pool_witness:
  "map assigned_proxy
     (fst (assign_each
             [(1, round_robin_request 10), (2, round_robin_request 11),
              (3, round_robin_request 12)]
             (round_robin_example\<lparr>proxy_round_robin := [None \<mapsto> 4]\<rparr>)))
     = [Inr 3, Inr 1, Inr 2] \<and>
   map ID (GetAvailableProxies (round_robin_example\<lparr>proxy_round_robin := [None \<mapsto> 4]\<rparr>) None)
     = [2, 3, 1]"
proof -
  let ?st = "round_robin_example\<lparr>proxy_round_robin := [None \<mapsto> 4]\<rparr>"
  let ?pool = "map scan_available
                 [example_proxy 2 ProxyTypeHTTP ProxyStatusActive True 10,
                  example_proxy 3 ProxyTypeHTTP ProxyStatusActive True 20,
                  example_proxy 1 ProxyTypeHTTP ProxyStatusActive True 30]"
  let ?reqs = "[(1::nat, round_robin_request 10), (2, round_robin_request 11),
                (3, round_robin_request 12)]"
  have pool: "?pool = GetAvailableProxies ?st None"
    by (simp add: GetAvailableProxies_def round_robin_example_def example_defs
          available_def type_matches_def)
  have ne: "?pool \<noteq> []" and len: "int (length ?pool) < 2 ^ 63" by simp_all
  have c: "4 = (case proxy_round_robin ?st None of None \<Rightarrow> 0 | Some i \<Rightarrow> i)"
    and c_lo: "(0::int) \<le> 4" and c_hi: "(4::int) < 2 ^ 63 - 1"
    by simp_all
  have n: "length ?reqs = length ?pool" by simp
  have rr: "\<forall>x\<in>set ?reqs. req_ProxyID (snd x) = None \<and>
              req_Strategy (snd x) = ''round_robin'' \<and> req_ProxyType (snd x) = None"
    by (simp add: round_robin_request_def)
  have rot: "map (\<lambda>p. Inr (ID p) :: error + int) (rotate (nat 4) ?pool) = [Inr 3, Inr 1, Inr 2]"
    by (simp add: eval_nat_numeral scan_available_def example_defs)
  have ids: "map ID ?pool = [2, 3, 1]"
    by (simp add: scan_available_def example_defs)
  from round_robin_visits_whole_pool [OF pool ne len c c_lo c_hi n rr]
  have "map assigned_proxy (fst (assign_each ?reqs ?st)) =
          map (\<lambda>p. Inr (ID p)) (rotate (nat 4) ?pool)"
    by blast
  with rot have a: "map assigned_proxy (fst (assign_each ?reqs ?st)) = [Inr 3, Inr 1, Inr 2]"
    by (simp only:)
  from ids have b: "map ID (GetAvailableProxies ?st None) = [2, 3, 1]"
    by (simp only: pool)
  from a b show ?thesis by blast
qed

end
